theory Spec2Isabelle
  imports Complex_Main "HOL-Library.Log_Nat"
begin

section \<open>JavaScript values used by the front end\<close>

text \<open>
  Strings are byte lists holding the UTF-8 encoding of the JavaScript string. The
  operations the code applies to strings (emptiness test, concatenation, comparison with
  an ASCII literal, search for an ASCII substring or prefix) give the same answers on the
  UTF-8 bytes as on the UTF-16 code units. A value that may be \<open>null\<close> or
  \<open>undefined\<close> is an \<open>option\<close>.
\<close>

definition js_or :: "string option \<Rightarrow> string \<Rightarrow> string" where
  \<comment> \<open>\<open>a || d\<close> for a string-or-null \<open>a\<close> and a string \<open>d\<close>.\<close>
  "js_or a d = (case a of None \<Rightarrow> d | Some s \<Rightarrow> if s = [] then d else s)"

definition digit_char :: "nat \<Rightarrow> char" where
  "digit_char d = char_of (48 + d)"

fun String_nat :: "nat \<Rightarrow> string" where
  \<comment> \<open>\<open>String(n)\<close> for a non-negative integer: its decimal digits.\<close>
  "String_nat n =
     (if n < 10 then [digit_char n] else String_nat (n div 10) @ [digit_char (n mod 10)])"

declare String_nat.simps [simp del]

definition String_int :: "int \<Rightarrow> string" where
  \<comment> \<open>\<open>`${i}`\<close> for an integer.\<close>
  "String_int i = (if i < 0 then ''-'' @ String_nat (nat (- i)) else String_nat (nat i))"

definition digit_val :: "char \<Rightarrow> nat" where
  "digit_val c = of_char c - 48"

definition parse_nat :: "string \<Rightarrow> nat" where
  \<comment> \<open>Reads decimal digits back; used to show that \<open>String_nat\<close> is injective.\<close>
  "parse_nat s = foldl (\<lambda>acc c. 10 * acc + digit_val c) 0 s"

definition startsWith :: "string \<Rightarrow> string \<Rightarrow> bool" where
  "startsWith s p = (take (length p) s = p)"

fun includes_str :: "string \<Rightarrow> string \<Rightarrow> bool" where
  \<comment> \<open>\<open>s.includes(p)\<close>: \<open>p\<close> occurs in \<open>s\<close> as a contiguous substring.\<close>
  "includes_str [] p = (p = [])"
| "includes_str (c # s) p = (startsWith (c # s) p \<or> includes_str s p)"

fun findIndex :: "('a \<Rightarrow> bool) \<Rightarrow> 'a list \<Rightarrow> nat option" where
  \<comment> \<open>\<open>Array.prototype.findIndex\<close>; \<open>None\<close> stands for \<open>-1\<close>.\<close>
  "findIndex P [] = None"
| "findIndex P (x # xs) =
     (if P x then Some 0 else map_option Suc (findIndex P xs))"

subsection \<open>Numbers\<close>

text \<open>
  A JavaScript number is an IEEE 754 double. The finite doubles are rationals, and an
  arithmetic operation returns the double nearest to the exact result, a tie going to the
  even significand. \<open>fl\<close> is that rounding, for magnitudes below \<open>2^1024\<close> (nothing larger
  arises here): the significand has 53 bits, and the exponent does not go below \<open>-1022\<close>.
\<close>

definition round_half_even :: "rat \<Rightarrow> int" where
  "round_half_even x =
     (let f = \<lfloor>x\<rfloor>; d = x - of_int f
      in if d < 1 / 2 then f else if d > 1 / 2 then f + 1 else if even f then f else f + 1)"

definition binade :: "rat \<Rightarrow> int" where
  \<comment> \<open>For \<open>x > 0\<close>, the exponent \<open>e\<close> with \<open>2^e \<le> x < 2^(e+1)\<close>.\<close>
  "binade x =
     (let (a, b) = quotient_of x; e = bitlen a - bitlen b
      in if power_int 2 e \<le> x then e else e - 1)"

definition fl :: "rat \<Rightarrow> rat" where
  "fl x =
     (if x = 0 then 0
      else let e = max (binade \<bar>x\<bar>) (- 1022); u = power_int 2 (e - 52)
           in sgn x * of_int (round_half_even (\<bar>x\<bar> / u)) * u)"

definition toFixed :: "rat \<Rightarrow> nat \<Rightarrow> string" where
  \<comment> \<open>\<open>Number.prototype.toFixed\<close> for a finite number below \<open>10^21\<close> in magnitude: the
      integer \<open>n\<close> with \<open>n / 10^f\<close> nearest to the number (the larger one on a tie), written
      with \<open>f\<close> digits after the point.\<close>
  "toFixed x f =
     (let s = (if x < 0 then ''-'' else []);
          n = nat \<lfloor>\<bar>x\<bar> * 10 ^ f + 1 / 2\<rfloor>;
          m = String_nat n;
          m' = (if f = 0 then m
                else let padded = (if length m \<le> f
                                   then replicate (f + 1 - length m) CHR ''0'' @ m else m);
                         k = length padded
                     in take (k - f) padded @ ''.'' @ drop (k - f) padded)
      in s @ m')"

text \<open>
  A value that is a string or an array of validation items: the \<open>detail\<close> member of an error
  body, and whatever is shown as an error text.
\<close>

record validation_item =
  msg :: "string option"

datatype js_text = Text string | Items "validation_item list"

fun text_truthy :: "js_text \<Rightarrow> bool" where
  \<comment> \<open>An array is truthy even when empty; a string is truthy unless empty.\<close>
  "text_truthy (Text s) = (s \<noteq> [])"
| "text_truthy (Items xs) = True"

definition text_or :: "js_text \<Rightarrow> string \<Rightarrow> js_text" where
  \<comment> \<open>\<open>m || d\<close> for a string-or-array \<open>m\<close> and a string \<open>d\<close>.\<close>
  "text_or m d = (if text_truthy m then m else Text d)"

section \<open>api/archive: the records exchanged with the server\<close>

record test_step =
  action :: string
  expected :: string

text \<open>
  A stored step result is typed \<open>any\<close> in \<open>ArchivedTestCase\<close>; the code reads its
  \<open>status\<close> and \<open>actual\<close> members, either of which may be missing.
\<close>

record saved_step_result =
  saved_status :: "string option"
  saved_actual :: "string option"

text \<open>
  \<open>ArchivedTestCase\<close>, with the members the execution model reads or writes. The remaining
  members (module path, priority, timestamps and so on) are only displayed.
\<close>

record archived_test_case =
  case_id :: int
  title :: string
  test_steps :: "test_step list option"
  execution_status :: "string option"
  execution_comment :: "string option"
  step_execution_results :: "(string \<rightharpoonup> saved_step_result) option"

text \<open>An entry of the draft: \<open>{ status: string, actual: string }\<close>.\<close>

record step_result =
  step_status :: string
  step_actual :: string

text \<open>
  \<open>ExecutionUpdateRequest\<close> as \<open>saveExecution\<close> builds it: all three members are
  supplied.
\<close>

record execution_update_request =
  req_status :: string
  req_comment :: string
  req_step_results :: "string \<rightharpoonup> step_result"

text \<open>\<open>ProjectArchive\<close> and \<open>ArchiveCreateRequest\<close>.\<close>

record project_archive =
  archive_id :: int
  archive_name :: string
  archive_description :: "string option"
  archive_status :: string
  created_at :: string
  created_by_name :: string
  case_count :: int

text \<open>
  The identifiers sent are whatever the \<open>id\<close> members of the kept nodes hold; a node
  without that member contributes \<open>undefined\<close>, which is \<open>None\<close>.
\<close>

record archive_create_request =
  req_name :: string
  req_description :: string
  test_case_ids :: "int option list"

text \<open>
  The hierarchical listing returned for \<open>view_mode: 'hierarchy'\<close>: modules, each with its
  test cases (the member may be missing).
\<close>

record test_case_item =
  tc_id :: int
  tc_title :: string

record module_item =
  mod_id :: int
  mod_name :: string
  test_cases :: "test_case_item list option"

section \<open>views/archive/ArchiveDetail: the execution state model\<close>

text \<open>The reactive object \<open>currentExecution\<close>.\<close>

record execution =
  status :: string
  comment :: string
  step_results :: "string \<rightharpoonup> step_result"

record detail_view =
  testCases :: "archived_test_case list"
  archiveName :: string
  currentCase :: "archived_test_case option"
  currentExecution :: execution
  drawerVisible :: bool
  saving :: bool
  exporting :: bool

type_synonym blob = string

text \<open>What a handler does to the world outside the component state, in order.\<close>

datatype effect =
    ApiUpdateExecution int execution_update_request
  | ApiExportArchive int string
  | ApiGetProjectTestCases int
  | ApiCreateArchive int archive_create_request
  | ApiGetArchives int
  | Download string blob
  | MessageSuccess string
  | MessageWarning string
  | MessageError js_text
  | TypeError

fun is_create_call :: "effect \<Rightarrow> bool" where
  "is_create_call (ApiCreateArchive i r) = True"
| "is_create_call e = False"

fun is_network_call :: "effect \<Rightarrow> bool" where
  "is_network_call (ApiUpdateExecution i r) = True"
| "is_network_call (ApiExportArchive i f) = True"
| "is_network_call (ApiGetProjectTestCases i) = True"
| "is_network_call (ApiCreateArchive i r) = True"
| "is_network_call (ApiGetArchives i) = True"
| "is_network_call (Download f b) = False"
| "is_network_call (MessageSuccess m) = False"
| "is_network_call (MessageWarning m) = False"
| "is_network_call (MessageError m) = False"
| "is_network_call TypeError = False"

definition msg_save_ok :: string where
  "msg_save_ok = [CHR 0xE4, CHR 0xBF, CHR 0x9D, CHR 0xE5, CHR 0xAD, CHR 0x98, CHR 0xE6, CHR 0x88,
     CHR 0x90, CHR 0xE5, CHR 0x8A, CHR 0x9F]"

definition msg_save_failed :: string where
  "msg_save_failed = [CHR 0xE4, CHR 0xBF, CHR 0x9D, CHR 0xE5, CHR 0xAD, CHR 0x98, CHR 0xE5,
     CHR 0xA4, CHR 0xB1, CHR 0xE8, CHR 0xB4, CHR 0xA5]"

definition msg_export_ok :: string where
  "msg_export_ok = [CHR 0xE5, CHR 0xAF, CHR 0xBC, CHR 0xE5, CHR 0x87, CHR 0xBA, CHR 0xE6,
     CHR 0x88, CHR 0x90, CHR 0xE5, CHR 0x8A, CHR 0x9F]"

definition msg_export_failed :: string where
  "msg_export_failed = [CHR 0xE5, CHR 0xAF, CHR 0xBC, CHR 0xE5, CHR 0x87, CHR 0xBA, CHR 0xE5,
     CHR 0xA4, CHR 0xB1, CHR 0xE8, CHR 0xB4, CHR 0xA5]"

definition export_word :: string where
  \<comment> \<open>The two characters U+5BFC U+51FA of the file name, in UTF-8.\<close>
  "export_word = [CHR 0xE5, CHR 0xAF, CHR 0xBC, CHR 0xE5, CHR 0x87, CHR 0xBA]"

subsection \<open>openRunDrawer\<close>

definition seed_step ::
  "archived_test_case \<Rightarrow> nat \<Rightarrow> (string \<rightharpoonup> step_result) \<Rightarrow> (string \<rightharpoonup> step_result)" where
  \<comment> \<open>The body of the \<open>forEach\<close> callback for the step at position \<open>idx\<close>.\<close>
  "seed_step row idx results =
     (let stepNum = String_nat (idx + 1);
          saved = (case step_execution_results row of None \<Rightarrow> None | Some m \<Rightarrow> m stepNum)
      in results(stepNum \<mapsto>
           \<lparr> step_status = js_or (Option.bind saved saved_status) ''skipped'',
             step_actual = js_or (Option.bind saved saved_actual) '''' \<rparr>))"

definition seed_step_results :: "archived_test_case \<Rightarrow> (string \<rightharpoonup> step_result)" where
  "seed_step_results row =
     (case test_steps row of
        None \<Rightarrow> Map.empty
      | Some steps \<Rightarrow> fold (seed_step row) [0..<length steps] Map.empty)"

definition openRunDrawer :: "archived_test_case \<Rightarrow> detail_view \<Rightarrow> detail_view" where
  "openRunDrawer row st =
     st\<lparr> currentCase := Some row,
         currentExecution :=
           \<lparr> status = js_or (execution_status row) ''skipped'',
             comment = js_or (execution_comment row) '''',
             step_results = seed_step_results row \<rparr>,
         drawerVisible := True \<rparr>"

subsection \<open>The drawer's form bindings\<close>

text \<open>
  The template binds the radio groups and text areas to the draft with \<open>v-model\<close>: a step's
  radio group writes \<open>step_results[k].status\<close>, its text area writes
  \<open>step_results[k].actual\<close>, the overall radio group writes \<open>status\<close> and the remark
  field writes \<open>comment\<close>. Writing through a key the draft does not hold is a
  \<open>TypeError\<close> in the source: \<open>None\<close>.
\<close>

datatype edit =
    SetStepStatus string string
  | SetStepActual string string
  | SetStatus string
  | SetComment string

fun apply_edit :: "edit \<Rightarrow> execution \<Rightarrow> execution option" where
  "apply_edit (SetStepStatus k v) d =
     (case step_results d k of
        None \<Rightarrow> None
      | Some r \<Rightarrow> Some (d\<lparr> step_results := (step_results d)(k \<mapsto> r\<lparr> step_status := v \<rparr>) \<rparr>))"
| "apply_edit (SetStepActual k v) d =
     (case step_results d k of
        None \<Rightarrow> None
      | Some r \<Rightarrow> Some (d\<lparr> step_results := (step_results d)(k \<mapsto> r\<lparr> step_actual := v \<rparr>) \<rparr>))"
| "apply_edit (SetStatus v) d = Some (d\<lparr> status := v \<rparr>)"
| "apply_edit (SetComment v) d = Some (d\<lparr> comment := v \<rparr>)"

fun apply_edits :: "edit list \<Rightarrow> execution \<Rightarrow> execution option" where
  "apply_edits [] d = Some d"
| "apply_edits (e # es) d =
     (case apply_edit e d of None \<Rightarrow> None | Some d' \<Rightarrow> apply_edits es d')"

fun is_step_edit :: "edit \<Rightarrow> bool" where
  "is_step_edit (SetStepStatus k v) = True"
| "is_step_edit (SetStepActual k v) = True"
| "is_step_edit (SetStatus v) = False"
| "is_step_edit (SetComment v) = False"

subsection \<open>saveExecution\<close>

definition saveExecution ::
  "(int \<Rightarrow> execution_update_request \<Rightarrow> archived_test_case option) \<Rightarrow> detail_view
     \<Rightarrow> detail_view \<times> effect list" where
  \<comment> \<open>\<open>updateExecution\<close> is the server: \<open>None\<close> when the request is rejected, otherwise
      the record it returns.\<close>
  "saveExecution updateExecution st =
     (case currentCase st of
        None \<Rightarrow> (st, [])
      | Some cur \<Rightarrow>
          let req = \<lparr> req_status = status (currentExecution st),
                      req_comment = comment (currentExecution st),
                      req_step_results = step_results (currentExecution st) \<rparr>
          in (case updateExecution (case_id cur) req of
                None \<Rightarrow>
                  (st\<lparr> saving := False \<rparr>,
                   [ApiUpdateExecution (case_id cur) req, MessageError (Text msg_save_failed)])
              | Some updated \<Rightarrow>
                  (st\<lparr> testCases :=
                         (case findIndex (\<lambda>c. case_id c = case_id updated) (testCases st) of
                            None \<Rightarrow> testCases st
                          | Some idx \<Rightarrow> (testCases st)[idx := updated]),
                       drawerVisible := False,
                       saving := False \<rparr>,
                   [ApiUpdateExecution (case_id cur) req, MessageSuccess msg_save_ok])))"

subsection \<open>handleExport\<close>

definition export_ext :: "string \<Rightarrow> string" where
  "export_ext format =
     (if format = ''xmind'' then ''xmind'' else (if format = ''markdown'' then ''md'' else ''csv''))"

definition export_filename :: "string \<Rightarrow> string \<Rightarrow> string" where
  "export_filename name format = name @ ''_'' @ export_word @ ''.'' @ export_ext format"

definition handleExport ::
  "(int \<Rightarrow> string \<Rightarrow> blob option) \<Rightarrow> int \<Rightarrow> string \<Rightarrow> detail_view \<Rightarrow> detail_view \<times> effect list" where
  \<comment> \<open>\<open>exportArchive\<close> is the server: \<open>None\<close> when the request fails.\<close>
  "handleExport exportArchive archiveId format st =
     (case exportArchive archiveId format of
        None \<Rightarrow>
          (st\<lparr> exporting := False \<rparr>,
           [ApiExportArchive archiveId format, MessageError (Text msg_export_failed)])
      | Some b \<Rightarrow>
          (st\<lparr> exporting := False \<rparr>,
           [ApiExportArchive archiveId format,
            Download (export_filename (archiveName st) format) b,
            MessageSuccess msg_export_ok]))"

subsection \<open>stats\<close>

record archive_stats =
  total :: nat
  passed :: nat
  failed :: nat
  blocked :: nat
  skipped :: nat
  passRate :: string

definition stats :: "detail_view \<Rightarrow> archive_stats" where
  "stats st =
     \<lparr> total = length (testCases st),
       passed = length (filter (\<lambda>c. execution_status c = Some ''passed'') (testCases st)),
       failed = length (filter (\<lambda>c. execution_status c = Some ''failed'') (testCases st)),
       blocked = length (filter (\<lambda>c. execution_status c = Some ''blocked'') (testCases st)),
       skipped = length (filter (\<lambda>c. execution_status c = Some ''skipped'') (testCases st)),
       passRate =
         (if length (testCases st) > 0
          then toFixed
                 (fl (fl (of_nat (length (filter (\<lambda>c. execution_status c = Some ''passed'')
                                            (testCases st)))
                          / of_nat (length (testCases st))) * 100)) 1
          else ''0.0'') \<rparr>"

subsection \<open>Initial component state\<close>

definition default_archive_name :: string where
  \<comment> \<open>The initial value of \<open>archiveName\<close>, in UTF-8.\<close>
  "default_archive_name = [CHR 0xE5, CHR 0xBD, CHR 0x92, CHR 0xE6, CHR 0xA1, CHR 0xA3, CHR 0xE8,
     CHR 0xAF, CHR 0xA6, CHR 0xE6, CHR 0x83, CHR 0x85]"

definition initial_detail_view :: detail_view where
  "initial_detail_view =
     \<lparr> testCases = [], archiveName = default_archive_name, currentCase = None,
       currentExecution = \<lparr> status = ''skipped'', comment = '''', step_results = Map.empty \<rparr>,
       drawerVisible = False, saving = False, exporting = False \<rparr>"

subsection \<open>Vocabulary of the statements\<close>

definition step_count :: "archived_test_case \<Rightarrow> nat" where
  \<comment> \<open>\<open>test_steps?.length || 0\<close>, as the drawer displays it.\<close>
  "step_count row = (case test_steps row of None \<Rightarrow> 0 | Some steps \<Rightarrow> length steps)"

definition saved_for :: "archived_test_case \<Rightarrow> string \<Rightarrow> saved_step_result option" where
  \<comment> \<open>The stored step result under key \<open>k\<close>, if the case has one.\<close>
  "saved_for row k = (case step_execution_results row of None \<Rightarrow> None | Some m \<Rightarrow> m k)"

definition seeded_entry :: "archived_test_case \<Rightarrow> string \<Rightarrow> step_result" where
  \<comment> \<open>The draft entry for key \<open>k\<close>, member by member: the stored status unless it is
      missing or empty, the stored actual text unless it is missing.\<close>
  "seeded_entry row k =
     \<lparr> step_status =
         (case saved_for row k of
            None \<Rightarrow> ''skipped''
          | Some s \<Rightarrow> (case saved_status s of
                        None \<Rightarrow> ''skipped''
                      | Some v \<Rightarrow> if v = [] then ''skipped'' else v)),
       step_actual =
         (case saved_for row k of
            None \<Rightarrow> []
          | Some s \<Rightarrow> (case saved_actual s of None \<Rightarrow> [] | Some v \<Rightarrow> v)) \<rparr>"

definition one_decimal :: "nat \<Rightarrow> string" where
  \<comment> \<open>A number of tenths written with one decimal place: \<open>287\<close> is \<open>28.7\<close>.\<close>
  "one_decimal n = String_nat (n div 10) @ ''.'' @ String_nat (n mod 10)"

definition as_saved :: "step_result \<Rightarrow> saved_step_result" where
  \<comment> \<open>A draft entry read as a stored step result: both members present.\<close>
  "as_saved r = \<lparr> saved_status = Some (step_status r), saved_actual = Some (step_actual r) \<rparr>"

subsection \<open>Example data\<close>

definition login_case :: archived_test_case where
  "login_case =
     \<lparr> case_id = 7, title = ''Login'',
       test_steps = Some [\<lparr> action = ''open page'', expected = ''form shown'' \<rparr>,
                          \<lparr> action = ''submit'', expected = ''dashboard'' \<rparr>,
                          \<lparr> action = ''open menu'', expected = ''menu shown'' \<rparr>,
                          \<lparr> action = ''log out'', expected = ''form shown'' \<rparr>],
       execution_status = Some ''failed'',
       execution_comment = None,
       step_execution_results =
         Some [''1'' \<mapsto> \<lparr> saved_status = Some ''passed'', saved_actual = Some ''ok'' \<rparr>,
               ''2'' \<mapsto> \<lparr> saved_status = Some '''', saved_actual = Some ''timeout'' \<rparr>,
               ''4'' \<mapsto> \<lparr> saved_status = Some ''blocked'', saved_actual = None \<rparr>] \<rparr>"

definition signup_case :: archived_test_case where
  "signup_case =
     \<lparr> case_id = 4, title = ''Sign up'', test_steps = None, execution_status = None,
       execution_comment = None, step_execution_results = None \<rparr>"

definition passed_case :: archived_test_case where
  "passed_case =
     \<lparr> case_id = 9, title = ''Search'', test_steps = Some [], execution_status = Some ''passed'',
       execution_comment = Some ''fine'', step_execution_results = None \<rparr>"

definition all_passed_draft :: execution where
  "all_passed_draft =
     \<lparr> status = ''failed'', comment = ''flaky'',
       step_results = [''1'' \<mapsto> \<lparr> step_status = ''passed'', step_actual = ''boom'' \<rparr>] \<rparr>"


section \<open>components/project/ProjectArchives: creating an archive\<close>

text \<open>
  A node of the tree handed to the tree widget. The object literals of \<open>openCreateDialog\<close>
  give the root and the module nodes \<open>children\<close> and no \<open>id\<close>, and the case nodes an \<open>id\<close>,
  \<open>isLeaf: true\<close> and no \<open>children\<close>; a missing \<open>isLeaf\<close> reads as false.
\<close>

datatype tree_node =
  TreeNode (key: string) (label: string) (children: "tree_node list option")
    (node_id: "int option") (isLeaf: bool)

definition label_all_cases :: string where
  \<comment> \<open>The label of the root node, in UTF-8.\<close>
  "label_all_cases = [CHR 0xE5, CHR 0x85, CHR 0xA8, CHR 0xE9, CHR 0x83, CHR 0xA8, CHR 0xE7,
     CHR 0x94, CHR 0xA8, CHR 0xE4, CHR 0xBE, CHR 0x8B]"

definition msg_enter_name :: string where
  "msg_enter_name = [CHR 0xE8, CHR 0xAF, CHR 0xB7, CHR 0xE8, CHR 0xBE, CHR 0x93, CHR 0xE5,
     CHR 0x85, CHR 0xA5, CHR 0xE5, CHR 0xBD, CHR 0x92, CHR 0xE6, CHR 0xA1, CHR 0xA3, CHR 0xE5,
     CHR 0x90, CHR 0x8D, CHR 0xE7, CHR 0xA7, CHR 0xB0]"

definition msg_select_case :: string where
  "msg_select_case = [CHR 0xE8, CHR 0xAF, CHR 0xB7, CHR 0xE8, CHR 0x87, CHR 0xB3, CHR 0xE5,
     CHR 0xB0, CHR 0x91, CHR 0xE9, CHR 0x80, CHR 0x89, CHR 0xE6, CHR 0x8B, CHR 0xA9, CHR 0xE4,
     CHR 0xB8, CHR 0x80, CHR 0xE4, CHR 0xB8, CHR 0xAA, CHR 0xE6, CHR 0xB5, CHR 0x8B, CHR 0xE8,
     CHR 0xAF, CHR 0x95, CHR 0xE7, CHR 0x94, CHR 0xA8, CHR 0xE4, CHR 0xBE, CHR 0x8B]"

definition msg_archive_created :: string where
  "msg_archive_created = [CHR 0xE5, CHR 0xBD, CHR 0x92, CHR 0xE6, CHR 0xA1, CHR 0xA3, CHR 0xE5,
     CHR 0x88, CHR 0x9B, CHR 0xE5, CHR 0xBB, CHR 0xBA, CHR 0xE6, CHR 0x88, CHR 0x90, CHR 0xE5,
     CHR 0x8A, CHR 0x9F]"

definition msg_create_failed :: string where
  "msg_create_failed = [CHR 0xE5, CHR 0x88, CHR 0x9B, CHR 0xE5, CHR 0xBB, CHR 0xBA, CHR 0xE5,
     CHR 0xBD, CHR 0x92, CHR 0xE6, CHR 0xA1, CHR 0xA3, CHR 0xE5, CHR 0xA4, CHR 0xB1, CHR 0xE8,
     CHR 0xB4, CHR 0xA5]"

definition msg_load_cases_failed :: string where
  "msg_load_cases_failed = [CHR 0xE5, CHR 0x8A, CHR 0xA0, CHR 0xE8, CHR 0xBD, CHR 0xBD, CHR 0xE6,
     CHR 0xB5, CHR 0x8B, CHR 0xE8, CHR 0xAF, CHR 0x95, CHR 0xE7, CHR 0x94, CHR 0xA8, CHR 0xE4,
     CHR 0xBE, CHR 0x8B, CHR 0xE5, CHR 0xA4, CHR 0xB1, CHR 0xE8, CHR 0xB4, CHR 0xA5]"

definition msg_load_archives_failed :: string where
  "msg_load_archives_failed = [CHR 0xE5, CHR 0x8A, CHR 0xA0, CHR 0xE8, CHR 0xBD, CHR 0xBD,
     CHR 0xE5, CHR 0xBD, CHR 0x92, CHR 0xE6, CHR 0xA1, CHR 0xA3, CHR 0xE5, CHR 0x88, CHR 0x97,
     CHR 0xE8, CHR 0xA1, CHR 0xA8, CHR 0xE5, CHR 0xA4, CHR 0xB1, CHR 0xE8, CHR 0xB4, CHR 0xA5]"

subsection \<open>The tree widget\<close>

text \<open>
  Modelled from the spec: the tree widget (\<open>el-tree\<close> of Element Plus, with check boxes) is
  not part of the repository. The spec has a checked node of any granularity (root, module or
  leaf) stand for the cases beneath it, each leaf checked at most once. So: the widget holds
  one mark per node; checking a node marks it and everything beneath it, and a node with
  children is marked exactly when all its children are; \<open>getCheckedNodes(leafOnly, false)\<close>
  lists, in display order, the data of the marked nodes, only those without children when
  \<open>leafOnly\<close> is set. A node is addressed by its path of child positions from the top.
\<close>

datatype ui_node = UiNode (node_data: tree_node) (checked: bool) (childNodes: "ui_node list")

fun mount :: "tree_node \<Rightarrow> ui_node" where
  "mount (TreeNode k l ch i lf) =
     UiNode (TreeNode k l ch i lf) False (case ch of None \<Rightarrow> [] | Some cs \<Rightarrow> map mount cs)"

fun setChecked :: "ui_node \<Rightarrow> ui_node" where
  "setChecked (UiNode d c cs) = UiNode d True (map setChecked cs)"

fun check_path :: "nat list \<Rightarrow> ui_node \<Rightarrow> ui_node" where
  "check_path [] n = setChecked n"
| "check_path (i # p) (UiNode d c cs) =
     (if i < length cs
      then (let cs' = cs[i := check_path p (cs ! i)] in UiNode d (list_all checked cs') cs')
      else UiNode d c cs)"

fun check_node :: "nat list \<Rightarrow> ui_node list \<Rightarrow> ui_node list" where
  "check_node [] roots = roots"
| "check_node (i # p) roots =
     (if i < length roots then roots[i := check_path p (roots ! i)] else roots)"

fun checked_below :: "bool \<Rightarrow> ui_node \<Rightarrow> tree_node list" where
  "checked_below leafOnly (UiNode d c cs) =
     (if c \<and> (\<not> leafOnly \<or> cs = []) then [d] else []) @
     concat (map (checked_below leafOnly) cs)"

definition getCheckedNodes :: "bool \<Rightarrow> ui_node list \<Rightarrow> tree_node list" where
  "getCheckedNodes leafOnly roots = concat (map (checked_below leafOnly) roots)"

subsection \<open>Component state\<close>

record create_form =
  name :: string
  description :: string

text \<open>
  \<open>treeRef\<close> is the mounted tree widget, \<open>None\<close> while the dialog shows no tree.
\<close>

record archives_view =
  archives :: "project_archive list"
  loading :: bool
  createDialogVisible :: bool
  createForm :: create_form
  creating :: bool
  loadingCases :: bool
  treeData :: "tree_node list"
  treeRef :: "ui_node list option"

definition initial_archives_view :: archives_view where
  "initial_archives_view =
     \<lparr> archives = [], loading = False, createDialogVisible = False,
       createForm = \<lparr> name = [], description = [] \<rparr>, creating = False,
       loadingCases = False, treeData = [], treeRef = None \<rparr>"

subsection \<open>loadArchives\<close>

definition loadArchives ::
  "(int \<Rightarrow> project_archive list option) \<Rightarrow> int \<Rightarrow> archives_view
     \<Rightarrow> archives_view \<times> effect list" where
  "loadArchives getArchives projectId st =
     (case getArchives projectId of
        Some result \<Rightarrow> (st\<lparr> archives := result, loading := False \<rparr>, [ApiGetArchives projectId])
      | None \<Rightarrow>
          (st\<lparr> loading := False \<rparr>,
           [ApiGetArchives projectId, MessageError (Text msg_load_archives_failed)]))"

subsection \<open>openCreateDialog\<close>

definition case_node :: "test_case_item \<Rightarrow> tree_node" where
  "case_node tc = TreeNode (''case-'' @ String_int (tc_id tc)) (tc_title tc) None (Some (tc_id tc)) True"

definition module_node :: "module_item \<Rightarrow> tree_node" where
  "module_node m =
     TreeNode (''module-'' @ String_int (mod_id m)) (mod_name m)
       (Some (map case_node (case test_cases m of None \<Rightarrow> [] | Some tcs \<Rightarrow> tcs))) None False"

definition build_tree :: "module_item list \<Rightarrow> tree_node list" where
  "build_tree listing =
     (let modules =
        filter (\<lambda>node. case children node of None \<Rightarrow> False | Some cs \<Rightarrow> length cs > 0)
          (map module_node listing)
      in [TreeNode ''root-all'' label_all_cases (Some modules) None False])"

definition openCreateDialog ::
  "(int \<Rightarrow> module_item list option) \<Rightarrow> int \<Rightarrow> archives_view \<Rightarrow> archives_view \<times> effect list" where
  \<comment> \<open>\<open>getProjectTestCases\<close> is the server: \<open>None\<close> when the request fails. Once
      \<open>loadingCases\<close> is reset the dialog shows the tree, freshly mounted on \<open>treeData\<close>.\<close>
  "openCreateDialog getProjectTestCases projectId st =
     (case getProjectTestCases projectId of
        Some listing \<Rightarrow>
          (st\<lparr> createForm := \<lparr> name = [], description = [] \<rparr>,
               createDialogVisible := True,
               loadingCases := False,
               treeData := build_tree listing,
               treeRef := Some (map mount (build_tree listing)) \<rparr>,
           [ApiGetProjectTestCases projectId])
      | None \<Rightarrow>
          (st\<lparr> createForm := \<lparr> name = [], description = [] \<rparr>,
               createDialogVisible := True,
               loadingCases := False,
               treeData := [],
               treeRef := Some [] \<rparr>,
           [ApiGetProjectTestCases projectId, MessageError (Text msg_load_cases_failed)]))"

subsection \<open>handleCreate\<close>

definition checked_case_ids :: "tree_node list \<Rightarrow> int option list" where
  \<comment> \<open>\<open>checkedNodes.filter(node => node.key.startsWith('case-')).map(node => node.id)\<close>.\<close>
  "checked_case_ids checkedNodes =
     map node_id (filter (\<lambda>node. startsWith (key node) ''case-'') checkedNodes)"

definition handleCreate ::
  "(int \<Rightarrow> archive_create_request \<Rightarrow> js_text option + project_archive) \<Rightarrow>
   (int \<Rightarrow> project_archive list option) \<Rightarrow> int \<Rightarrow> archives_view \<Rightarrow> archives_view \<times> effect list" where
  \<comment> \<open>\<open>createArchive\<close> is the server: \<open>Inl d\<close> when the request fails, \<open>d\<close> being the
      \<open>detail\<close> of the error body if there is one. Reading the checked nodes of a tree that is
      not mounted is a \<open>TypeError\<close>. Closing the dialog destroys the tree.\<close>
  "handleCreate createArchive getArchives projectId st =
     (if name (createForm st) = [] then (st, [MessageWarning msg_enter_name])
      else
        (case treeRef st of
           None \<Rightarrow> (st, [TypeError])
         | Some roots \<Rightarrow>
             let checkedNodes = getCheckedNodes True roots;
                 caseIds = checked_case_ids checkedNodes
             in if length caseIds = 0 then (st, [MessageWarning msg_select_case])
                else
                  (let req = \<lparr> req_name = name (createForm st),
                               req_description = description (createForm st),
                               test_case_ids = caseIds \<rparr>
                   in case createArchive projectId req of
                        Inr created \<Rightarrow>
                          (let (st', loaded) =
                             loadArchives getArchives projectId
                               (st\<lparr> createDialogVisible := False, treeRef := None \<rparr>)
                           in (st'\<lparr> creating := False \<rparr>,
                               [ApiCreateArchive projectId req, MessageSuccess msg_archive_created]
                               @ loaded))
                      | Inl d \<Rightarrow>
                          (st\<lparr> creating := False \<rparr>,
                           [ApiCreateArchive projectId req,
                            MessageError
                              (case d of None \<Rightarrow> Text msg_create_failed
                               | Some t \<Rightarrow> text_or t msg_create_failed)]))))"

subsection \<open>Vocabulary of the statements\<close>

definition cases_of :: "module_item \<Rightarrow> test_case_item list" where
  \<comment> \<open>The cases listed under a module, none when the member is missing.\<close>
  "cases_of m = (case test_cases m of None \<Rightarrow> [] | Some tcs \<Rightarrow> tcs)"

definition shown_modules :: "module_item list \<Rightarrow> module_item list" where
  \<comment> \<open>The modules of a listing that have at least one case, in order.\<close>
  "shown_modules listing = filter (\<lambda>m. cases_of m \<noteq> []) listing"

definition case_ids :: "module_item \<Rightarrow> int option list" where
  \<comment> \<open>The identifiers of a module's cases, in order.\<close>
  "case_ids m = map (\<lambda>tc. Some (tc_id tc)) (cases_of m)"

definition tree_nodes :: "module_item list \<Rightarrow> tree_node list" where
  \<comment> \<open>Every node of the tree built for a listing: the root, the module nodes and the case
      nodes.\<close>
  "tree_nodes listing =
     build_tree listing @ map module_node (shown_modules listing) @
     concat (map (\<lambda>m. map case_node (cases_of m)) (shown_modules listing))"

definition mounted_module :: "bool \<Rightarrow> module_item \<Rightarrow> ui_node" where
  \<comment> \<open>The widget's node for a module, with the module and its cases all marked or all
      unmarked.\<close>
  "mounted_module c m =
     UiNode (module_node m) c (map (\<lambda>tc. UiNode (case_node tc) c []) (cases_of m))"

definition selected_case_ids :: "archives_view \<Rightarrow> int option list" where
  \<comment> \<open>The case identifiers \<open>handleCreate\<close> extracts from the tree; none without a tree.\<close>
  "selected_case_ids st =
     (case treeRef st of
        None \<Rightarrow> []
      | Some roots \<Rightarrow> checked_case_ids (getCheckedNodes True roots))"

subsection \<open>Example data\<close>

definition sample_listing :: "module_item list" where
  "sample_listing =
     [\<lparr> mod_id = 1, mod_name = ''Accounts'',
        test_cases = Some [\<lparr> tc_id = 11, tc_title = ''Login'' \<rparr>,
                           \<lparr> tc_id = 12, tc_title = ''Logout'' \<rparr>] \<rparr>,
      \<lparr> mod_id = 2, mod_name = ''Empty'', test_cases = Some [] \<rparr>,
      \<lparr> mod_id = 3, mod_name = ''Billing'',
        test_cases = Some [\<lparr> tc_id = 31, tc_title = ''Invoice'' \<rparr>] \<rparr>]"

definition filled_in_view :: archives_view where
  \<comment> \<open>The dialog opened on \<open>sample_listing\<close>, the form filled in and the first module
      checked.\<close>
  "filled_in_view =
     (fst (openCreateDialog (\<lambda>p. Some sample_listing) 5 initial_archives_view))
       \<lparr> createForm := \<lparr> name = ''v1'', description = ''regression'' \<rparr>,
         treeRef := Some (check_node [0, 0] (map mount (build_tree sample_listing))) \<rparr>"

section \<open>api/index: the transport client\<close>

text \<open>
  The browser state the interceptors touch: \<open>localStorage\<close> and \<open>window.location.href\<close>.
\<close>

record browser =
  localStorage :: "string \<rightharpoonup> string"
  location_href :: string

text \<open>The members of the request configuration that the interceptors read or write.\<close>

record request_config =
  url :: "string option"
  headers :: "string \<rightharpoonup> string"

definition request_interceptor :: "browser \<Rightarrow> request_config \<Rightarrow> request_config" where
  "request_interceptor b config =
     (case localStorage b ''access_token'' of
        None \<Rightarrow> config
      | Some token \<Rightarrow>
          if token = [] then config
          else config\<lparr> headers := (headers config)(''Authorization'' \<mapsto> ''Bearer '' @ token) \<rparr>)"

text \<open>
  The body of an error response is read through its members \<open>detail\<close> and \<open>message\<close>.
  \<open>detail\<close> is a string or, for validation errors, an array of items with a \<open>msg\<close> member.
  The value assigned to \<open>error.message\<close> is whatever \<open>errorMessage\<close> holds, so it has the
  same two shapes. The body itself may be \<open>null\<close> or \<open>undefined\<close>, which is \<open>None\<close>; every
  other body is read as an object, a member it does not have being \<open>None\<close>.
\<close>

record response_data =
  detail :: "js_text option"
  message :: "string option"

record http_response =
  http_status :: int
  data :: "response_data option"

record axios_error =
  response :: "http_response option"
  request :: bool
  config :: "request_config option"
  error_message :: js_text

definition msg_bad_credentials :: string where
  "msg_bad_credentials = [CHR 0xE7, CHR 0x94, CHR 0xA8, CHR 0xE6, CHR 0x88, CHR 0xB7, CHR 0xE5,
     CHR 0x90, CHR 0x8D, CHR 0xE6, CHR 0x88, CHR 0x96, CHR 0xE5, CHR 0xAF, CHR 0x86, CHR 0xE7,
     CHR 0xA0, CHR 0x81, CHR 0xE9, CHR 0x94, CHR 0x99, CHR 0xE8, CHR 0xAF, CHR 0xAF]"

definition msg_login_expired :: string where
  "msg_login_expired = [CHR 0xE7, CHR 0x99, CHR 0xBB, CHR 0xE5, CHR 0xBD, CHR 0x95, CHR 0xE5,
     CHR 0xB7, CHR 0xB2, CHR 0xE8, CHR 0xBF, CHR 0x87, CHR 0xE6, CHR 0x9C, CHR 0x9F, CHR 0xEF,
     CHR 0xBC, CHR 0x8C, CHR 0xE8, CHR 0xAF, CHR 0xB7, CHR 0xE9, CHR 0x87, CHR 0x8D, CHR 0xE6,
     CHR 0x96, CHR 0xB0, CHR 0xE7, CHR 0x99, CHR 0xBB, CHR 0xE5, CHR 0xBD, CHR 0x95]"

definition msg_forbidden :: string where
  "msg_forbidden = [CHR 0xE6, CHR 0x9D, CHR 0x83, CHR 0xE9, CHR 0x99, CHR 0x90, CHR 0xE4,
     CHR 0xB8, CHR 0x8D, CHR 0xE8, CHR 0xB6, CHR 0xB3]"

definition msg_not_found :: string where
  "msg_not_found = [CHR 0xE8, CHR 0xAF, CHR 0xB7, CHR 0xE6, CHR 0xB1, CHR 0x82, CHR 0xE7,
     CHR 0x9A, CHR 0x84, CHR 0xE8, CHR 0xB5, CHR 0x84, CHR 0xE6, CHR 0xBA, CHR 0x90, CHR 0xE4,
     CHR 0xB8, CHR 0x8D, CHR 0xE5, CHR 0xAD, CHR 0x98, CHR 0xE5, CHR 0x9C, CHR 0xA8]"

definition msg_bad_params :: string where
  "msg_bad_params = [CHR 0xE5, CHR 0x8F, CHR 0x82, CHR 0xE6, CHR 0x95, CHR 0xB0, CHR 0xE9,
     CHR 0x94, CHR 0x99, CHR 0xE8, CHR 0xAF, CHR 0xAF]"

definition msg_server_fault :: string where
  "msg_server_fault = [CHR 0xE6, CHR 0x9C, CHR 0x8D, CHR 0xE5, CHR 0x8A, CHR 0xA1, CHR 0xE5,
     CHR 0x99, CHR 0xA8, CHR 0xE5, CHR 0x86, CHR 0x85, CHR 0xE9, CHR 0x83, CHR 0xA8, CHR 0xE9,
     CHR 0x94, CHR 0x99, CHR 0xE8, CHR 0xAF, CHR 0xAF]"

definition msg_request_failed :: string where
  "msg_request_failed = [CHR 0xE8, CHR 0xAF, CHR 0xB7, CHR 0xE6, CHR 0xB1, CHR 0x82, CHR 0xE5,
     CHR 0xA4, CHR 0xB1, CHR 0xE8, CHR 0xB4, CHR 0xA5]"

definition msg_network_down :: string where
  "msg_network_down = [CHR 0xE7, CHR 0xBD, CHR 0x91, CHR 0xE7, CHR 0xBB, CHR 0x9C, CHR 0xE8,
     CHR 0xBF, CHR 0x9E, CHR 0xE6, CHR 0x8E, CHR 0xA5, CHR 0xE5, CHR 0xA4, CHR 0xB1, CHR 0xE8,
     CHR 0xB4, CHR 0xA5, CHR 0xEF, CHR 0xBC, CHR 0x8C, CHR 0xE8, CHR 0xAF, CHR 0xB7, CHR 0xE6,
     CHR 0xA3, CHR 0x80, CHR 0xE6, CHR 0x9F, CHR 0xA5, CHR 0xE7, CHR 0xBD, CHR 0x91, CHR 0xE7,
     CHR 0xBB, CHR 0x9C, CHR 0xE8, CHR 0xAE, CHR 0xBE, CHR 0xE7, CHR 0xBD, CHR 0xAE]"

definition msg_bad_config :: string where
  "msg_bad_config = [CHR 0xE8, CHR 0xAF, CHR 0xB7, CHR 0xE6, CHR 0xB1, CHR 0x82, CHR 0xE9,
     CHR 0x85, CHR 0x8D, CHR 0xE7, CHR 0xBD, CHR 0xAE, CHR 0xE9, CHR 0x94, CHR 0x99, CHR 0xE8,
     CHR 0xAF, CHR 0xAF]"

definition initial_error_message :: "response_data \<Rightarrow> js_text" where
  \<comment> \<open>\<open>data.detail || data.message || ''\<close>.\<close>
  "initial_error_message d =
     (case detail d of
        Some t \<Rightarrow> if text_truthy t then t else Text (js_or (message d) [])
      | None \<Rightarrow> Text (js_or (message d) []))"

fun join :: "string \<Rightarrow> string list \<Rightarrow> string" where
  "join sep [] = []"
| "join sep [x] = x"
| "join sep (x # y # ys) = x @ sep @ join sep (y # ys)"

definition item_msg :: "validation_item \<Rightarrow> string" where
  \<comment> \<open>\<open>join\<close> renders a missing \<open>msg\<close> as the empty string.\<close>
  "item_msg item = (case msg item of None \<Rightarrow> [] | Some s \<Rightarrow> s)"

definition is_login_url :: "axios_error \<Rightarrow> bool" where
  \<comment> \<open>\<open>error.config?.url?.includes('/auth/login')\<close>, read as a condition.\<close>
  "is_login_url e =
     (case config e of
        None \<Rightarrow> False
      | Some c \<Rightarrow> (case url c of None \<Rightarrow> False | Some u \<Rightarrow> includes_str u ''/auth/login''))"

text \<open>
  How the rejection handler ends: it rejects with the error it was given, its message
  rewritten, or reading a member of a \<open>null\<close> body raises a \<open>TypeError\<close> before anything
  else is done.
\<close>

datatype rejection = Reject axios_error | RaiseTypeError

definition response_error_interceptor :: "browser \<Rightarrow> axios_error \<Rightarrow> browser \<times> rejection" where
  \<comment> \<open>The rejection handler: the browser state afterwards and how the handler ends.
      \<open>data.detail\<close> is read before the \<open>switch\<close> on the status.\<close>
  "response_error_interceptor b e =
     (case response e of
        Some r \<Rightarrow>
          (case data r of
             None \<Rightarrow> (b, RaiseTypeError)
           | Some d \<Rightarrow>
               (let errorMessage = initial_error_message d in
                if http_status r = 401 then
                  (if is_login_url e
                   then (b, Reject (e\<lparr> error_message := text_or errorMessage msg_bad_credentials \<rparr>))
                   else (b\<lparr> localStorage := (localStorage b)(''access_token'' := None,
                                                                ''refresh_token'' := None),
                            location_href := ''/login'' \<rparr>,
                         Reject (e\<lparr> error_message := Text msg_login_expired \<rparr>)))
                else if http_status r = 403 then
                  (b, Reject (e\<lparr> error_message := text_or errorMessage msg_forbidden \<rparr>))
                else if http_status r = 404 then
                  (b, Reject (e\<lparr> error_message := text_or errorMessage msg_not_found \<rparr>))
                else if http_status r = 422 then
                  (case detail d of
                     Some (Items xs) \<Rightarrow>
                       (b, Reject (e\<lparr> error_message :=
                               Text (msg_bad_params @ '': '' @ join '', '' (map item_msg xs)) \<rparr>))
                   | _ \<Rightarrow> (b, Reject (e\<lparr> error_message := text_or errorMessage msg_bad_params \<rparr>)))
                else if http_status r = 500 then
                  (b, Reject (e\<lparr> error_message := text_or errorMessage msg_server_fault \<rparr>))
                else
                  (b, Reject (e\<lparr> error_message :=
                          text_or errorMessage
                            (msg_request_failed @ '' ('' @ String_int (http_status r) @ '')'') \<rparr>))))
      | None \<Rightarrow>
          if request e then (b, Reject (e\<lparr> error_message := Text msg_network_down \<rparr>))
          else (b, Reject (e\<lparr> error_message := Text msg_bad_config \<rparr>)))"

subsection \<open>Example data\<close>

definition signed_in :: browser where
  "signed_in =
     \<lparr> localStorage = [''access_token'' \<mapsto> ''tok1'', ''refresh_token'' \<mapsto> ''tok2'',
                       ''theme'' \<mapsto> ''dark''],
       location_href = ''/projects/1'' \<rparr>"

definition unauthorized :: "string \<Rightarrow> response_data option \<Rightarrow> axios_error" where
  \<comment> \<open>A 401 answer, with the given body, to a request for the given URL.\<close>
  "unauthorized u d =
     \<lparr> response = Some \<lparr> http_status = 401, data = d \<rparr>, request = True,
       config = Some \<lparr> url = Some u, headers = Map.empty \<rparr>, error_message = Text [] \<rparr>"

section \<open>Decimal keys\<close>

lemma digit_val_digit_char: "d < 10 \<Longrightarrow> digit_val (digit_char d) = d"
  by (simp add: digit_val_def digit_char_def)

lemma parse_nat_snoc: "parse_nat (s @ [c]) = 10 * parse_nat s + digit_val c"
  by (simp add: parse_nat_def)

lemma parse_String_nat: "parse_nat (String_nat n) = n"
proof (induction n rule: String_nat.induct)
  case (1 n)
  show ?case
  proof (cases "n < 10")
    case True
    then show ?thesis by (simp add: String_nat.simps[of n] parse_nat_def digit_val_digit_char)
  next
    case False
    with 1 have "parse_nat (String_nat (n div 10)) = n div 10" by simp
    with False show ?thesis
      by (simp add: String_nat.simps[of n] parse_nat_snoc digit_val_digit_char)
  qed
qed

lemma String_nat_eq_iff: "String_nat a = String_nat b \<longleftrightarrow> a = b"
  by (metis parse_String_nat)

lemma inj_String_nat: "inj String_nat"
  by (simp add: inj_on_def String_nat_eq_iff)

lemma seed_step_apply:
  "seed_step row idx m k =
     (if k = String_nat (idx + 1) then Some (seeded_entry row k) else m k)"
  by (auto simp: seed_step_def seeded_entry_def saved_for_def js_or_def Let_def
           split: option.splits)

lemma fold_seed_step:
  "fold (seed_step row) [0..<n] Map.empty k =
     (if k \<in> String_nat ` {1..n} then Some (seeded_entry row k) else None)"
proof (induction n)
  case 0
  then show ?case by simp
next
  case (Suc n)
  have range: "{1..Suc n} = insert (Suc n) {1..n}" by auto
  have "fold (seed_step row) [0..<Suc n] Map.empty k =
        seed_step row n (fold (seed_step row) [0..<n] Map.empty) k"
    by simp
  also have "\<dots> = (if k = String_nat (n + 1) then Some (seeded_entry row k)
                     else fold (seed_step row) [0..<n] Map.empty k)"
    by (rule seed_step_apply)
  also have "\<dots> = (if k \<in> String_nat ` {1..Suc n} then Some (seeded_entry row k) else None)"
    unfolding Suc range by auto
  finally show ?case .
qed

lemma seed_step_results_apply:
  "seed_step_results row k =
     (if k \<in> String_nat ` {1..step_count row} then Some (seeded_entry row k) else None)"
  by (cases "test_steps row") (simp_all add: seed_step_results_def step_count_def fold_seed_step)

lemma dom_seed_step_results:
  "dom (seed_step_results row) = String_nat ` {1..step_count row}"
  by (auto simp: dom_def seed_step_results_apply)

lemma card_seed_step_results:
  "card (dom (seed_step_results row)) = step_count row"
  by (simp add: dom_seed_step_results card_image inj_String_nat[THEN inj_on_subset])

lemma String_nat_small:
  "String_nat 1 = ''1''" "String_nat 2 = ''2''" "String_nat 3 = ''3''" "String_nat 4 = ''4''"
  by code_simp+

section \<open>Seeding the draft\<close>

lemma openRunDrawer_step_results:
  "step_results (currentExecution (openRunDrawer row st)) = seed_step_results row"
  by (simp add: openRunDrawer_def)

lemma openRunDrawer_status:
  "status (currentExecution (openRunDrawer row st)) =
     (case execution_status row of
        None \<Rightarrow> ''skipped'' | Some v \<Rightarrow> if v = [] then ''skipped'' else v)"
  by (simp add: openRunDrawer_def js_or_def)

lemma openRunDrawer_comment:
  "comment (currentExecution (openRunDrawer row st)) =
     (case execution_comment row of None \<Rightarrow> [] | Some v \<Rightarrow> v)"
  by (simp add: openRunDrawer_def js_or_def split: option.splits)

text \<open>
  C1 (as amended). For every archived case with \<open>N\<close> steps (\<open>N = 0\<close> when the case has no step
  sequence), \<open>openRunDrawer\<close> produces a draft whose \<open>step_results\<close> has exactly \<open>N\<close> entries,
  keyed by the decimal strings of \<open>1..N\<close>. Entry \<open>i\<close> is seeded member by member: its status
  is the stored status for key \<open>i\<close> when there is one and it is not empty, and \<open>skipped\<close>
  otherwise; its actual text is the stored one when there is one, and empty otherwise. The
  overall status is the case's \<open>execution_status\<close>, or \<open>skipped\<close> when that is unset or empty;
  the comment is the case's \<open>execution_comment\<close>, or empty when unset.
\<close>

theorem openRunDrawer_seeds_draft:
  "dom (step_results (currentExecution (openRunDrawer row st))) =
     String_nat ` {1..step_count row} \<and>
   card (dom (step_results (currentExecution (openRunDrawer row st)))) = step_count row \<and>
   (\<forall>i\<in>{1..step_count row}.
      step_results (currentExecution (openRunDrawer row st)) (String_nat i) =
        Some (seeded_entry row (String_nat i))) \<and>
   status (currentExecution (openRunDrawer row st)) =
     (case execution_status row of
        None \<Rightarrow> ''skipped'' | Some v \<Rightarrow> if v = [] then ''skipped'' else v) \<and>
   comment (currentExecution (openRunDrawer row st)) =
     (case execution_comment row of None \<Rightarrow> [] | Some v \<Rightarrow> v)"
proof (intro conjI)
  show "dom (step_results (currentExecution (openRunDrawer row st))) =
          String_nat ` {1..step_count row}"
    by (simp add: openRunDrawer_step_results dom_seed_step_results)
  show "card (dom (step_results (currentExecution (openRunDrawer row st)))) = step_count row"
    by (simp add: openRunDrawer_step_results card_seed_step_results)
  show "\<forall>i\<in>{1..step_count row}.
          step_results (currentExecution (openRunDrawer row st)) (String_nat i) =
            Some (seeded_entry row (String_nat i))"
    by (simp add: openRunDrawer_step_results seed_step_results_apply)
  show "status (currentExecution (openRunDrawer row st)) =
          (case execution_status row of
             None \<Rightarrow> ''skipped'' | Some v \<Rightarrow> if v = [] then ''skipped'' else v)"
    by (rule openRunDrawer_status)
  show "comment (currentExecution (openRunDrawer row st)) =
          (case execution_comment row of None \<Rightarrow> [] | Some v \<Rightarrow> v)"
    by (rule openRunDrawer_comment)
qed

theorem openRunDrawer_seeds_draft_witness:
  "card (dom (step_results (currentExecution (openRunDrawer login_case initial_detail_view)))) = 4 \<and>
   step_results (currentExecution (openRunDrawer login_case initial_detail_view)) ''1'' =
     Some \<lparr> step_status = ''passed'', step_actual = ''ok'' \<rparr> \<and>
   step_results (currentExecution (openRunDrawer login_case initial_detail_view)) ''3'' =
     Some \<lparr> step_status = ''skipped'', step_actual = '''' \<rparr> \<and>
   status (currentExecution (openRunDrawer login_case initial_detail_view)) = ''failed'' \<and>
   comment (currentExecution (openRunDrawer login_case initial_detail_view)) = ''''"
proof -
  have n: "step_count login_case = 4" by (simp add: step_count_def login_case_def)
  note T = openRunDrawer_seeds_draft[of login_case initial_detail_view, unfolded n]
  from T have size: "card (dom (step_results (currentExecution
      (openRunDrawer login_case initial_detail_view)))) = 4"
    by blast
  from T have entries: "\<forall>i\<in>{1..4::nat}.
      step_results (currentExecution (openRunDrawer login_case initial_detail_view))
        (String_nat i) = Some (seeded_entry login_case (String_nat i))"
    by blast
  have e1: "step_results (currentExecution (openRunDrawer login_case initial_detail_view))
        (String_nat 1) = Some (seeded_entry login_case (String_nat 1))"
    by (rule bspec[OF entries]) simp
  have e3: "step_results (currentExecution (openRunDrawer login_case initial_detail_view))
        (String_nat 3) = Some (seeded_entry login_case (String_nat 3))"
    by (rule bspec[OF entries]) simp
  from T have overall:
    "status (currentExecution (openRunDrawer login_case initial_detail_view)) =
      (case execution_status login_case of
         None \<Rightarrow> ''skipped'' | Some v \<Rightarrow> if v = [] then ''skipped'' else v)"
    "comment (currentExecution (openRunDrawer login_case initial_detail_view)) =
      (case execution_comment login_case of None \<Rightarrow> [] | Some v \<Rightarrow> v)"
    by blast+
  have "seeded_entry login_case ''1'' = \<lparr> step_status = ''passed'', step_actual = ''ok'' \<rparr>"
    "seeded_entry login_case ''3'' = \<lparr> step_status = ''skipped'', step_actual = [] \<rparr>"
    "execution_status login_case = Some ''failed''" "execution_comment login_case = None"
    by (simp_all add: seeded_entry_def saved_for_def login_case_def)
  with size e1[unfolded String_nat_small] e3[unfolded String_nat_small] overall
  show ?thesis by simp
qed

text \<open>
  The claim as first stated has entry \<open>i\<close> equal to the stored step result whenever one
  exists. \<open>login_case\<close> has a stored result under key \<open>2\<close> whose status is empty, and one under
  key \<open>4\<close> without an actual text (\<open>ExecutionUpdateRequest\<close> makes \<open>actual\<close> optional). The
  draft's entry \<open>2\<close> has status \<open>skipped\<close> and its entry \<open>4\<close> has the empty actual text:
  neither is the stored result.
\<close>

theorem openRunDrawer_entry_differs_from_saved:
  "saved_for login_case ''2'' =
     Some \<lparr> saved_status = Some '''', saved_actual = Some ''timeout'' \<rparr> \<and>
   step_results (currentExecution (openRunDrawer login_case initial_detail_view)) ''2'' =
     Some \<lparr> step_status = ''skipped'', step_actual = ''timeout'' \<rparr> \<and>
   map_option as_saved
     (step_results (currentExecution (openRunDrawer login_case initial_detail_view)) ''2'') \<noteq>
     saved_for login_case ''2'' \<and>
   saved_for login_case ''4'' =
     Some \<lparr> saved_status = Some ''blocked'', saved_actual = None \<rparr> \<and>
   step_results (currentExecution (openRunDrawer login_case initial_detail_view)) ''4'' =
     Some \<lparr> step_status = ''blocked'', step_actual = '''' \<rparr> \<and>
   map_option as_saved
     (step_results (currentExecution (openRunDrawer login_case initial_detail_view)) ''4'') \<noteq>
     saved_for login_case ''4''"
proof -
  have n: "step_count login_case = 4" by (simp add: step_count_def login_case_def)
  have "String_nat 2 \<in> String_nat ` {1..step_count login_case}"
    "String_nat 4 \<in> String_nat ` {1..step_count login_case}"
    unfolding n by simp_all
  then have "seed_step_results login_case ''2'' = Some (seeded_entry login_case ''2'')"
    "seed_step_results login_case ''4'' = Some (seeded_entry login_case ''4'')"
    by (simp_all add: seed_step_results_apply String_nat_small)
  then show ?thesis
    by (simp add: openRunDrawer_step_results seeded_entry_def saved_for_def login_case_def
        as_saved_def)
qed

section \<open>Saving: what is sent and what the list holds afterwards\<close>



lemma saveExecution_request:
  "currentCase st = Some cur \<Longrightarrow>
   hd (snd (saveExecution updateExecution st)) =
     ApiUpdateExecution (case_id cur)
       \<lparr> req_status = status (currentExecution st),
         req_comment = comment (currentExecution st),
         req_step_results = step_results (currentExecution st) \<rparr>"
  by (simp add: saveExecution_def Let_def split: option.splits)




section \<open>The overall status is set by the user only\<close>

lemma apply_edit_frame:
  "is_step_edit e \<Longrightarrow> apply_edit e d = Some d' \<Longrightarrow> status d' = status d \<and> comment d' = comment d"
  by (cases e) (auto split: option.splits)

lemma apply_edits_frame:
  "list_all is_step_edit es \<Longrightarrow> apply_edits es d = Some d' \<Longrightarrow>
     status d' = status d \<and> comment d' = comment d"
proof (induction es arbitrary: d)
  case Nil
  then show ?case by simp
next
  case (Cons e es)
  from Cons.prems obtain d1 where d1: "apply_edit e d = Some d1" "apply_edits es d1 = Some d'"
    by (auto split: option.splits)
  from Cons.prems have "is_step_edit e" "list_all is_step_edit es" by simp_all
  with d1 Cons.IH[of d1] apply_edit_frame[of e d d1] show ?case by simp
qed

text \<open>
  C9. Any sequence of edits of per-step statuses and actual texts leaves the draft's overall
  status and comment as they were, and \<open>saveExecution\<close> then sends exactly that status and
  comment together with the edited step results: nothing is derived from the steps.
\<close>

theorem overall_status_independent:
  assumes "list_all is_step_edit es"
    and "apply_edits es d = Some d'"
    and "currentCase st = Some cur"
    and "currentExecution st = d'"
  shows "status d' = status d \<and> comment d' = comment d \<and>
         hd (snd (saveExecution updateExecution st)) =
           ApiUpdateExecution (case_id cur)
             \<lparr> req_status = status d, req_comment = comment d,
               req_step_results = step_results d' \<rparr>"
  using apply_edits_frame[OF assms(1,2)] saveExecution_request[OF assms(3), of updateExecution]
    assms(4) by simp

theorem overall_status_independent_witness:
  "apply_edits [SetStepStatus ''1'' ''failed'', SetStepActual ''1'' ''boom'',
                SetStepStatus ''1'' ''passed'']
     \<lparr> status = ''failed'', comment = ''flaky'',
       step_results = [''1'' \<mapsto> \<lparr> step_status = ''skipped'', step_actual = '''' \<rparr>] \<rparr> =
     Some all_passed_draft \<and>
   hd (snd (saveExecution (\<lambda>i r. None)
        (initial_detail_view\<lparr> currentCase := Some login_case,
           currentExecution := all_passed_draft \<rparr>))) =
     ApiUpdateExecution 7
       \<lparr> req_status = ''failed'', req_comment = ''flaky'',
         req_step_results = [''1'' \<mapsto> \<lparr> step_status = ''passed'', step_actual = ''boom'' \<rparr>] \<rparr>"
proof -
  have es: "list_all is_step_edit [SetStepStatus ''1'' ''failed'', SetStepActual ''1'' ''boom'',
                SetStepStatus ''1'' ''passed'']"
    by simp
  have run: "apply_edits [SetStepStatus ''1'' ''failed'', SetStepActual ''1'' ''boom'',
                SetStepStatus ''1'' ''passed'']
     \<lparr> status = ''failed'', comment = ''flaky'',
       step_results = [''1'' \<mapsto> \<lparr> step_status = ''skipped'', step_actual = '''' \<rparr>] \<rparr> =
     Some all_passed_draft"
    by (simp add: all_passed_draft_def)
  have cur: "currentCase (initial_detail_view\<lparr> currentCase := Some login_case,
           currentExecution := all_passed_draft \<rparr>) = Some login_case"
    by simp
  have dr: "currentExecution (initial_detail_view\<lparr> currentCase := Some login_case,
           currentExecution := all_passed_draft \<rparr>) = all_passed_draft"
    by simp
  from overall_status_independent[OF es run cur dr, of "\<lambda>i r. None"] run
  show ?thesis
    by (simp add: login_case_def all_passed_draft_def)
qed

section \<open>Export file name\<close>

text \<open>
  C7. Whatever the archive name and the format tag, a file that \<open>handleExport\<close> hands to the
  browser is named \<open><archive-name>_<U+5BFC U+51FA>.<ext>\<close>, where \<open>ext\<close> is \<open>xmind\<close> for the
  format \<open>xmind\<close>, \<open>md\<close> for \<open>markdown\<close> and \<open>csv\<close> for every other format; and when the
  export request succeeds such a file is handed over.
\<close>

theorem handleExport_filename:
  "(\<forall>b. exportArchive archiveId format = Some b \<longrightarrow>
      Download (archiveName st @ ''_'' @ export_word @ ''.'' @
                (if format = ''xmind'' then ''xmind''
                 else if format = ''markdown'' then ''md'' else ''csv'')) b
        \<in> set (snd (handleExport exportArchive archiveId format st))) \<and>
   (\<forall>f b. Download f b \<in> set (snd (handleExport exportArchive archiveId format st)) \<longrightarrow>
      f = archiveName st @ ''_'' @ export_word @ ''.'' @
          (if format = ''xmind'' then ''xmind''
           else if format = ''markdown'' then ''md'' else ''csv''))"
  by (auto simp: handleExport_def export_filename_def export_ext_def split: option.splits)

theorem handleExport_filename_witness:
  "Download (''R1_'' @ export_word @ ''.md'') ''data''
     \<in> set (snd (handleExport (\<lambda>i f. Some ''data'') 3 ''markdown''
                (initial_detail_view\<lparr> archiveName := ''R1'' \<rparr>)))"
  using handleExport_filename[of "\<lambda>i f. Some ''data''" 3 "''markdown''"
      "initial_detail_view\<lparr> archiveName := ''R1'' \<rparr>"]
  by simp

section \<open>Transport: the bearer token and the 401 answers\<close>

lemma request_interceptor_headers:
  "headers (request_interceptor b cfg) =
     (case localStorage b ''access_token'' of
        None \<Rightarrow> headers cfg
      | Some t \<Rightarrow> if t = [] then headers cfg
                  else (headers cfg)(''Authorization'' \<mapsto> ''Bearer '' @ t))"
  by (simp add: request_interceptor_def split: option.splits)

lemma request_interceptor_no_token:
  "localStorage b ''access_token'' = None \<or> localStorage b ''access_token'' = Some [] \<Longrightarrow>
     request_interceptor b cfg = cfg"
  by (auto simp: request_interceptor_def)

lemma response_error_interceptor_browser:
  "fst (response_error_interceptor b e) =
     (if (\<exists>r d. response e = Some r \<and> data r = Some d \<and> http_status r = 401) \<and>
         \<not> is_login_url e
      then b\<lparr> localStorage := (localStorage b)(''access_token'' := None, ''refresh_token'' := None),
              location_href := ''/login'' \<rparr>
      else b)"
  by (auto simp: response_error_interceptor_def Let_def split: option.splits js_text.splits)

lemma response_error_interceptor_null_body:
  "response e = Some r \<Longrightarrow> data r = None \<Longrightarrow>
     response_error_interceptor b e = (b, RaiseTypeError)"
  by (simp add: response_error_interceptor_def)

lemma is_login_url_examples:
  "is_login_url (unauthorized ''/auth/login'' d)"
  "is_login_url (unauthorized ''/api/auth/login'' d)"
  "\<not> is_login_url (unauthorized ''/archives/3/test-cases'' d)"
  by (simp_all add: is_login_url_def unauthorized_def startsWith_def)

text \<open>
  What the interceptors do whenever the body of the answer is not \<open>null\<close>. A token is present
  when \<open>localStorage\<close> holds a non-empty \<open>access_token\<close>; the request interceptor then sets
  the \<open>Authorization\<close> header to \<open>Bearer <token>\<close>, and otherwise leaves the request as it
  is. A 401 answer, with a body, to a request whose URL does not contain \<open>/auth/login\<close> removes
  \<open>access_token\<close> and \<open>refresh_token\<close> and sets the location to \<open>/login\<close>. No other
  rejection changes storage or location.
\<close>

lemma transport_auth_expiry_with_body:
  "(\<forall>t. localStorage b ''access_token'' = Some t \<and> t \<noteq> [] \<longrightarrow>
       headers (request_interceptor b cfg) ''Authorization'' = Some (''Bearer '' @ t)) \<and>
   (localStorage b ''access_token'' = None \<or> localStorage b ''access_token'' = Some [] \<longrightarrow>
       request_interceptor b cfg = cfg) \<and>
   (\<forall>r d. response e = Some r \<and> data r = Some d \<and> http_status r = 401 \<and> \<not> is_login_url e \<longrightarrow>
       localStorage (fst (response_error_interceptor b e)) ''access_token'' = None \<and>
       localStorage (fst (response_error_interceptor b e)) ''refresh_token'' = None \<and>
       location_href (fst (response_error_interceptor b e)) = ''/login'') \<and>
   (\<not> (\<exists>r d. response e = Some r \<and> data r = Some d \<and> http_status r = 401 \<and>
          \<not> is_login_url e) \<longrightarrow>
       fst (response_error_interceptor b e) = b)"
proof (intro conjI)
  show "\<forall>t. localStorage b ''access_token'' = Some t \<and> t \<noteq> [] \<longrightarrow>
       headers (request_interceptor b cfg) ''Authorization'' = Some (''Bearer '' @ t)"
    by (simp add: request_interceptor_headers)
  show "localStorage b ''access_token'' = None \<or> localStorage b ''access_token'' = Some [] \<longrightarrow>
       request_interceptor b cfg = cfg"
    using request_interceptor_no_token by blast
  show "\<forall>r d. response e = Some r \<and> data r = Some d \<and> http_status r = 401 \<and>
          \<not> is_login_url e \<longrightarrow>
       localStorage (fst (response_error_interceptor b e)) ''access_token'' = None \<and>
       localStorage (fst (response_error_interceptor b e)) ''refresh_token'' = None \<and>
       location_href (fst (response_error_interceptor b e)) = ''/login''"
    by (simp add: response_error_interceptor_browser)
  show "\<not> (\<exists>r d. response e = Some r \<and> data r = Some d \<and> http_status r = 401 \<and>
          \<not> is_login_url e) \<longrightarrow>
       fst (response_error_interceptor b e) = b"
    by (auto simp: response_error_interceptor_browser)
qed

text \<open>
  C8. The claim has every 401 answer to a non-login endpoint remove both stored tokens and
  force a navigation to the login route, as the comments of the handler say of a 401 from any
  other interface. The handler reads \<open>data.detail\<close> before it looks at the status, so a 401
  answer whose body is \<open>null\<close> raises a \<open>TypeError\<close> there: for the request to
  \<open>/archives/3/test-cases\<close>, which is not a login request, both tokens are still stored and
  the location is what it was.
\<close>

theorem expired_401_null_body_keeps_tokens:
  "\<not> is_login_url (unauthorized ''/archives/3/test-cases'' None) \<and>
   response_error_interceptor signed_in (unauthorized ''/archives/3/test-cases'' None) =
     (signed_in, RaiseTypeError) \<and>
   localStorage (fst (response_error_interceptor signed_in
      (unauthorized ''/archives/3/test-cases'' None))) ''access_token'' = Some ''tok1'' \<and>
   localStorage (fst (response_error_interceptor signed_in
      (unauthorized ''/archives/3/test-cases'' None))) ''refresh_token'' = Some ''tok2'' \<and>
   location_href (fst (response_error_interceptor signed_in
      (unauthorized ''/archives/3/test-cases'' None))) = ''/projects/1''"
proof -
  have "response_error_interceptor signed_in (unauthorized ''/archives/3/test-cases'' None) =
      (signed_in, RaiseTypeError)"
    by (rule response_error_interceptor_null_body[where r = "\<lparr> http_status = 401, data = None \<rparr>"])
      (simp_all add: unauthorized_def)
  then show ?thesis
    by (simp add: is_login_url_examples signed_in_def)
qed

text \<open>
  The same request answered with a body: the tokens are removed and the location is the
  login route.
\<close>

lemma expired_401_with_body_example:
  "localStorage (fst (response_error_interceptor signed_in
      (unauthorized ''/archives/3/test-cases'' (Some \<lparr> detail = None, message = None \<rparr>))))
      ''access_token'' = None \<and>
   localStorage (fst (response_error_interceptor signed_in
      (unauthorized ''/archives/3/test-cases'' (Some \<lparr> detail = None, message = None \<rparr>))))
      ''refresh_token'' = None \<and>
   location_href (fst (response_error_interceptor signed_in
      (unauthorized ''/archives/3/test-cases'' (Some \<lparr> detail = None, message = None \<rparr>)))) =
     ''/login'' \<and>
   headers (request_interceptor signed_in
      \<lparr> url = Some ''/archives/3/test-cases'', headers = Map.empty \<rparr>) ''Authorization'' =
     Some ''Bearer tok1''"
proof -
  have tok: "localStorage signed_in ''access_token'' = Some ''tok1''"
    by (simp add: signed_in_def)
  have r: "response (unauthorized ''/archives/3/test-cases''
        (Some \<lparr> detail = None, message = None \<rparr>)) =
      Some \<lparr> http_status = 401, data = Some \<lparr> detail = None, message = None \<rparr> \<rparr>"
    by (simp add: unauthorized_def)
  from transport_auth_expiry_with_body[of signed_in
      "\<lparr> url = Some ''/archives/3/test-cases'', headers = Map.empty \<rparr>"
      "unauthorized ''/archives/3/test-cases'' (Some \<lparr> detail = None, message = None \<rparr>)"]
    tok r is_login_url_examples(3)
  show ?thesis by simp
qed

text \<open>
  What the handler does with a 401 answer to a request whose URL contains \<open>/auth/login\<close>: the
  stored tokens and the location stay as they were, whatever the body; and when the body is
  not \<open>null\<close> the error's message is the \<open>detail\<close> of the answer when that is a non-empty
  string or a list, otherwise its \<open>message\<close> when that is a non-empty string, otherwise the
  fixed text for wrong user name or password.
\<close>

lemma login_401_keeps_session:
  assumes "response e = Some r" and "http_status r = 401" and "is_login_url e"
  shows "fst (response_error_interceptor b e) = b"
  using assms by (simp add: response_error_interceptor_browser)

lemma login_401_message_with_body:
  assumes "response e = Some r" and "http_status r = 401" and "data r = Some d"
    and "is_login_url e"
  shows "snd (response_error_interceptor b e) =
           Reject (e\<lparr> error_message :=
             (case detail d of
                Some (Items xs) \<Rightarrow> Items xs
              | Some (Text s) \<Rightarrow>
                  if s \<noteq> [] then Text s
                  else (case message d of
                          Some m \<Rightarrow> if m \<noteq> [] then Text m else Text msg_bad_credentials
                        | None \<Rightarrow> Text msg_bad_credentials)
              | None \<Rightarrow>
                  (case message d of
                     Some m \<Rightarrow> if m \<noteq> [] then Text m else Text msg_bad_credentials
                   | None \<Rightarrow> Text msg_bad_credentials)) \<rparr>)"
  using assms
  by (auto simp: response_error_interceptor_def Let_def text_or_def
      initial_error_message_def js_or_def split: option.splits js_text.splits)

text \<open>
  C10. The claim has the message of a login 401 default to the fixed text for wrong user
  name or password when the backend supplies none, as the handler's own default says. A
  login 401 whose body is \<open>null\<close> supplies none; reading \<open>data.detail\<close> raises a
  \<open>TypeError\<close>, so the handler does not reject with the error carrying that text but with
  the \<open>TypeError\<close>. The stored tokens and the location are untouched, as the claim says.
\<close>

theorem login_401_null_body_raises:
  "is_login_url (unauthorized ''/api/auth/login'' None) \<and>
   response_error_interceptor signed_in (unauthorized ''/api/auth/login'' None) =
     (signed_in, RaiseTypeError) \<and>
   snd (response_error_interceptor signed_in (unauthorized ''/api/auth/login'' None)) \<noteq>
     Reject ((unauthorized ''/api/auth/login'' None)
               \<lparr> error_message := Text msg_bad_credentials \<rparr>)"
proof -
  have "response_error_interceptor signed_in (unauthorized ''/api/auth/login'' None) =
      (signed_in, RaiseTypeError)"
    by (rule response_error_interceptor_null_body[where r = "\<lparr> http_status = 401, data = None \<rparr>"])
      (simp_all add: unauthorized_def)
  then show ?thesis
    by (simp add: is_login_url_examples)
qed

text \<open>
  The same request answered with an empty object, and with a \<open>detail\<close>: the default text,
  and the backend's text.
\<close>

lemma login_401_with_body_example:
  "response_error_interceptor signed_in
      (unauthorized ''/api/auth/login'' (Some \<lparr> detail = None, message = None \<rparr>)) =
     (signed_in,
      Reject ((unauthorized ''/api/auth/login'' (Some \<lparr> detail = None, message = None \<rparr>))
                \<lparr> error_message := Text msg_bad_credentials \<rparr>)) \<and>
   snd (response_error_interceptor signed_in
      (unauthorized ''/api/auth/login''
         (Some \<lparr> detail = Some (Text ''locked''), message = None \<rparr>))) =
     Reject ((unauthorized ''/api/auth/login''
                (Some \<lparr> detail = Some (Text ''locked''), message = None \<rparr>))
               \<lparr> error_message := Text ''locked'' \<rparr>)"
proof -
  let ?e0 = "unauthorized ''/api/auth/login'' (Some \<lparr> detail = None, message = None \<rparr>)"
  let ?e1 = "unauthorized ''/api/auth/login''
               (Some \<lparr> detail = Some (Text ''locked''), message = None \<rparr>)"
  have r0: "response ?e0 =
      Some \<lparr> http_status = 401, data = Some \<lparr> detail = None, message = None \<rparr> \<rparr>"
    by (simp add: unauthorized_def)
  have r1: "response ?e1 = Some \<lparr> http_status = 401,
      data = Some \<lparr> detail = Some (Text ''locked''), message = None \<rparr> \<rparr>"
    by (simp add: unauthorized_def)
  have "fst (response_error_interceptor signed_in ?e0) = signed_in"
    using r0 by (rule login_401_keeps_session) (simp_all add: is_login_url_examples)
  moreover have "snd (response_error_interceptor signed_in ?e0) =
      Reject (?e0\<lparr> error_message := Text msg_bad_credentials \<rparr>)"
    using login_401_message_with_body[OF r0, of "\<lparr> detail = None, message = None \<rparr>" signed_in]
    by (simp add: is_login_url_examples)
  moreover have "snd (response_error_interceptor signed_in ?e1) =
      Reject (?e1\<lparr> error_message := Text ''locked'' \<rparr>)"
    using login_401_message_with_body[OF r1,
        of "\<lparr> detail = Some (Text ''locked''), message = None \<rparr>" signed_in]
    by (simp add: is_login_url_examples)
  ultimately show ?thesis by (simp add: prod_eq_iff)
qed

section \<open>The tree built for the create dialog\<close>

lemma build_tree_modules:
  "build_tree listing =
     [TreeNode ''root-all'' label_all_cases (Some (map module_node (shown_modules listing))) None False]"
  by (simp add: build_tree_def shown_modules_def cases_of_def module_node_def filter_map comp_def
      split: option.splits)

lemma module_node_children:
  "children (module_node m) = Some (map case_node (cases_of m))"
  by (simp add: module_node_def cases_of_def)

lemma module_node_sel:
  "key (module_node m) = ''module-'' @ String_int (mod_id m)"
  "label (module_node m) = mod_name m"
  "node_id (module_node m) = None" "\<not> isLeaf (module_node m)"
  by (simp_all add: module_node_def)

lemma case_node_sel:
  "key (case_node tc) = ''case-'' @ String_int (tc_id tc)"
  "label (case_node tc) = tc_title tc"
  "node_id (case_node tc) = Some (tc_id tc)" "isLeaf (case_node tc)"
  "children (case_node tc) = None"
  by (simp_all add: case_node_def)

text \<open>
  C6. For every listing of modules with their cases, the built tree is one root node
  (key \<open>root-all\<close>) whose children are the nodes of exactly the modules that have at least one
  case, in the order of the listing and once per entry of the listing; a module without cases
  has no node. The node of a module carries the module's key and name and has, as children,
  the nodes of all its cases in order; the node of a case carries the case's key, title and
  identifier, is tagged \<open>isLeaf\<close> and has no children.
\<close>

theorem build_tree_shape:
  "build_tree listing =
     [TreeNode ''root-all'' label_all_cases (Some (map module_node (shown_modules listing))) None False] \<and>
   length (map module_node (shown_modules listing)) =
     length (filter (\<lambda>m. cases_of m \<noteq> []) listing) \<and>
   (\<forall>m\<in>set listing. cases_of m = [] \<longrightarrow> m \<notin> set (shown_modules listing)) \<and>
   (\<forall>m\<in>set (shown_modules listing).
      key (module_node m) = ''module-'' @ String_int (mod_id m) \<and>
      label (module_node m) = mod_name m \<and>
      children (module_node m) = Some (map case_node (cases_of m)) \<and>
      cases_of m \<noteq> []) \<and>
   (\<forall>tc. key (case_node tc) = ''case-'' @ String_int (tc_id tc) \<and>
         label (case_node tc) = tc_title tc \<and> node_id (case_node tc) = Some (tc_id tc) \<and>
         isLeaf (case_node tc) \<and> children (case_node tc) = None)"
  by (auto simp: build_tree_modules module_node_children shown_modules_def case_node_sel
      module_node_sel)

lemma shown_sample:
  "shown_modules sample_listing =
     [\<lparr> mod_id = 1, mod_name = ''Accounts'',
        test_cases = Some [\<lparr> tc_id = 11, tc_title = ''Login'' \<rparr>,
                           \<lparr> tc_id = 12, tc_title = ''Logout'' \<rparr>] \<rparr>,
      \<lparr> mod_id = 3, mod_name = ''Billing'',
        test_cases = Some [\<lparr> tc_id = 31, tc_title = ''Invoice'' \<rparr>] \<rparr>]"
  by (simp add: shown_modules_def sample_listing_def cases_of_def)

lemma String_int_small:
  "String_int 1 = ''1''" "String_int 3 = ''3''"
  by code_simp+

theorem build_tree_shape_witness:
  "map key (the (children (hd (build_tree sample_listing)))) = [''module-1'', ''module-3''] \<and>
   length (build_tree sample_listing) = 1 \<and>
   \<lparr> mod_id = 2, mod_name = ''Empty'', test_cases = Some [] \<rparr> \<in> set sample_listing \<and>
   \<lparr> mod_id = 2, mod_name = ''Empty'', test_cases = Some [] \<rparr> \<notin> set (shown_modules sample_listing)"
proof -
  note T = build_tree_shape[of sample_listing]
  from T have tree: "build_tree sample_listing =
     [TreeNode ''root-all'' label_all_cases
        (Some (map module_node (shown_modules sample_listing))) None False]"
    by blast
  from T have hidden: "\<forall>m\<in>set sample_listing. cases_of m = [] \<longrightarrow>
      m \<notin> set (shown_modules sample_listing)"
    by blast
  have mem: "\<lparr> mod_id = 2, mod_name = ''Empty'', test_cases = Some [] \<rparr> \<in> set sample_listing"
    by (simp add: sample_listing_def)
  have "cases_of \<lparr> mod_id = 2, mod_name = ''Empty'', test_cases = Some [] \<rparr> = []"
    by (simp add: cases_of_def)
  with hidden mem
  have "\<lparr> mod_id = 2, mod_name = ''Empty'', test_cases = Some [] \<rparr> \<notin> set (shown_modules sample_listing)"
    by blast
  moreover have "map key (the (children (hd (build_tree sample_listing)))) =
      [''module-1'', ''module-3'']"
    unfolding tree by (simp add: shown_sample module_node_sel String_int_small)
  moreover have "length (build_tree sample_listing) = 1"
    unfolding tree by simp
  ultimately show ?thesis using mem by simp
qed

section \<open>Selection extraction\<close>

lemma key_case_node_prefix: "startsWith (key (case_node tc)) ''case-''"
  by (simp add: case_node_def startsWith_def)

lemma key_module_node_prefix: "\<not> startsWith (key (module_node m)) ''case-''"
  by (simp add: module_node_def startsWith_def)

lemma mount_case_node: "mount (case_node tc) = UiNode (case_node tc) False []"
  by (simp add: case_node_def)

lemma mount_module_node:
  "mount (module_node m) =
     UiNode (module_node m) False (map (\<lambda>tc. UiNode (case_node tc) False []) (cases_of m))"
  by (simp add: module_node_def cases_of_def mount_case_node comp_def)

lemma mount_build_tree:
  "map mount (build_tree listing) =
     [UiNode (hd (build_tree listing)) False (map (mounted_module False) (shown_modules listing))]"
  by (simp add: build_tree_modules mount_module_node mounted_module_def comp_def)

lemma checked_case_ids_append:
  "checked_case_ids (xs @ ys) = checked_case_ids xs @ checked_case_ids ys"
  by (simp add: checked_case_ids_def)

lemma checked_case_ids_concat:
  "checked_case_ids (concat xss) = concat (map checked_case_ids xss)"
  by (induction xss) (simp_all add: checked_case_ids_append checked_case_ids_def)

lemma checked_case_ids_case_nodes:
  "checked_case_ids (map case_node tcs) = map (\<lambda>tc. Some (tc_id tc)) tcs"
  by (induction tcs) (simp_all add: checked_case_ids_def case_node_sel(3) key_case_node_prefix)

lemma checked_below_module_unchecked:
  "checked_below True (mounted_module False m) = []"
  by (simp add: mounted_module_def comp_def)

lemma checked_below_module_checked:
  "cases_of m \<noteq> [] \<Longrightarrow>
     checked_below True (mounted_module True m) = map case_node (cases_of m)"
  by (simp add: mounted_module_def comp_def)

lemma concat_map_update_single:
  "(\<forall>x\<in>set xs. f x = []) \<Longrightarrow> i < length xs \<Longrightarrow> concat (map f (xs[i := y])) = f y"
proof (induction xs arbitrary: i)
  case Nil
  then show ?case by simp
next
  case (Cons x xs)
  show ?case
  proof (cases i)
    case 0
    with Cons.prems show ?thesis by simp
  next
    case (Suc j)
    with Cons.prems Cons.IH[of j] show ?thesis by simp
  qed
qed

lemma setChecked_mounted_module:
  "setChecked (mounted_module c m) = mounted_module True m"
  by (simp add: mounted_module_def comp_def)

lemma shown_modules_nonempty: "m \<in> set (shown_modules listing) \<Longrightarrow> cases_of m \<noteq> []"
  by (simp add: shown_modules_def)

lemma concat_case_ids_shown:
  "concat (map case_ids (shown_modules listing)) = concat (map case_ids listing)"
  by (induction listing) (simp_all add: shown_modules_def case_ids_def)

lemma root_key: "key (hd (build_tree listing)) = ''root-all''"
  by (simp add: build_tree_modules)

lemma checked_case_ids_root: "checked_case_ids [hd (build_tree listing)] = []"
  by (simp add: checked_case_ids_def root_key startsWith_def)

lemma checked_case_ids_Nil: "checked_case_ids [] = []"
  by (simp add: checked_case_ids_def)

lemma check_root_nodes:
  "getCheckedNodes True (check_node [0] (map mount (build_tree listing))) =
     (if shown_modules listing = [] then [hd (build_tree listing)] else []) @
     concat (map (\<lambda>m. map case_node (cases_of m)) (shown_modules listing))"
proof -
  have "concat (map (checked_below True) (map (mounted_module True) (shown_modules listing))) =
        concat (map (\<lambda>m. map case_node (cases_of m)) (shown_modules listing))"
    by (simp add: comp_def checked_below_module_checked shown_modules_nonempty cong: map_cong)
  then show ?thesis
    by (simp add: getCheckedNodes_def mount_build_tree setChecked_mounted_module comp_def)
qed

lemma check_root_ids:
  "checked_case_ids (getCheckedNodes True (check_node [0] (map mount (build_tree listing)))) =
     concat (map case_ids listing)"
proof -
  have "checked_case_ids (concat (map (\<lambda>m. map case_node (cases_of m)) (shown_modules listing))) =
        concat (map case_ids (shown_modules listing))"
    by (simp add: checked_case_ids_concat comp_def checked_case_ids_case_nodes case_ids_def[abs_def])
  then show ?thesis
    unfolding check_root_nodes using checked_case_ids_root[of listing]
    by (simp add: checked_case_ids_append concat_case_ids_shown checked_case_ids_Nil)
qed

lemma check_module_nodes:
  assumes "i < length (shown_modules listing)"
  shows "getCheckedNodes True (check_node [0, i] (map mount (build_tree listing))) =
           map case_node (cases_of (shown_modules listing ! i))"
proof -
  let ?ms = "map (mounted_module False) (shown_modules listing)"
  let ?m = "shown_modules listing ! i"
  have m: "?m \<in> set (shown_modules listing)" using assms by simp
  have upd: "concat (map (checked_below True) (?ms[i := mounted_module True ?m])) =
        checked_below True (mounted_module True ?m)"
    using assms by (intro concat_map_update_single) (auto simp: checked_below_module_unchecked)
  have ne: "?ms[i := mounted_module True ?m] \<noteq> []" using assms by auto
  show ?thesis
    using assms ne upd
    by (simp add: getCheckedNodes_def mount_build_tree setChecked_mounted_module Let_def
        checked_below_module_checked[OF shown_modules_nonempty[OF m]])
qed

lemma check_leaf_nodes:
  assumes "i < length (shown_modules listing)"
    and "j < length (cases_of (shown_modules listing ! i))"
  shows "getCheckedNodes True (check_node [0, i, j] (map mount (build_tree listing))) =
           [case_node (cases_of (shown_modules listing ! i) ! j)]"
proof -
  let ?ms = "map (mounted_module False) (shown_modules listing)"
  let ?m = "shown_modules listing ! i"
  let ?ls = "map (\<lambda>tc. UiNode (case_node tc) False []) (cases_of ?m)"
  let ?leaf = "UiNode (case_node (cases_of ?m ! j)) True []"
  let ?ls' = "?ls[j := ?leaf]"
  let ?mod = "UiNode (module_node ?m) (list_all checked ?ls') ?ls'"
  have path: "check_path [j] (mounted_module False ?m) = ?mod"
    using assms(2) by (simp add: mounted_module_def Let_def)
  have leaves: "concat (map (checked_below True) ?ls') = checked_below True ?leaf"
    using assms(2) by (intro concat_map_update_single) auto
  have ne: "?ls' \<noteq> []" using assms(2) by auto
  have mod: "checked_below True ?mod = [case_node (cases_of ?m ! j)]"
    using ne leaves by simp
  have mods: "concat (map (checked_below True) (?ms[i := ?mod])) = checked_below True ?mod"
    using assms(1) by (intro concat_map_update_single) (auto simp: checked_below_module_unchecked)
  have ne2: "?ms[i := ?mod] \<noteq> []" using assms(1) by auto
  have "check_node [0, i, j] (map mount (build_tree listing)) =
        [UiNode (hd (build_tree listing)) (list_all checked (?ms[i := ?mod])) (?ms[i := ?mod])]"
    using assms(1) path by (simp add: mount_build_tree Let_def)
  then show ?thesis
    using ne2 mods mod by (simp add: getCheckedNodes_def)
qed

lemma tree_nodes_cases:
  assumes "n \<in> set (tree_nodes listing)"
  shows "n = hd (build_tree listing) \<or> (\<exists>m. n = module_node m) \<or> (\<exists>tc. n = case_node tc)"
  using assms by (auto simp: tree_nodes_def build_tree_modules)

lemma key_root_prefix: "\<not> startsWith (key (hd (build_tree listing))) ''case-''"
  by (simp add: root_key startsWith_def)

lemma root_not_leaf: "\<not> isLeaf (hd (build_tree listing))"
  by (simp add: build_tree_modules)

lemma tree_node_tag:
  assumes "n \<in> set (tree_nodes listing)"
  shows "startsWith (key n) ''case-'' \<longleftrightarrow> isLeaf n"
  using tree_nodes_cases[OF assms]
  by (auto simp: key_root_prefix root_not_leaf key_module_node_prefix key_case_node_prefix
      module_node_sel(4) case_node_sel(4))

lemma tree_node_leaf_key:
  assumes "n \<in> set (tree_nodes listing)" and "isLeaf n"
  shows "\<exists>i. node_id n = Some i \<and> key n = ''case-'' @ String_int i"
  using tree_nodes_cases[OF assms(1)] assms(2)
  by (auto simp: module_node_sel case_node_sel build_tree_modules)

lemma checked_case_ids_tagged:
  assumes "set ns \<subseteq> set (tree_nodes listing)"
  shows "checked_case_ids ns = map node_id (filter isLeaf ns)"
proof -
  have "filter (\<lambda>node. startsWith (key node) ''case-'') ns = filter isLeaf ns"
    using assms by (intro filter_cong) (auto simp: tree_node_tag)
  then show ?thesis by (simp add: checked_case_ids_def)
qed

lemma checked_case_ids_distinct:
  assumes "set ns \<subseteq> set (tree_nodes listing)" and "distinct (map key ns)"
  shows "distinct (checked_case_ids ns)"
proof -
  let ?L = "filter isLeaf ns"
  define g where "g = (\<lambda>v. case v of None \<Rightarrow> [] | Some i \<Rightarrow> ''case-'' @ String_int i)"
  have "\<forall>n\<in>set ?L. key n = g (node_id n)"
  proof
    fix n assume "n \<in> set ?L"
    then have "n \<in> set (tree_nodes listing)" "isLeaf n" using assms(1) by auto
    from tree_node_leaf_key[OF this] show "key n = g (node_id n)"
      unfolding g_def by auto
  qed
  then have eq: "map key ?L = map g (map node_id ?L)" by simp
  have "distinct (map key ?L)"
    using assms(2) by (rule distinct_map_filter)
  then have "distinct (map g (map node_id ?L))" unfolding eq .
  then have "distinct (map node_id ?L)" by (simp only: distinct_map)
  then show ?thesis by (simp add: checked_case_ids_tagged[OF assms(1)])
qed

text \<open>
  C5. From any list of nodes of the built tree (root, module or case nodes),
  \<open>handleCreate\<close>'s extraction keeps exactly the nodes tagged \<open>isLeaf\<close> and maps them to
  their case identifiers; when no node occurs twice in the list (distinct keys) no identifier
  occurs twice in the result. On the freshly shown tree, checking the root yields the case
  identifiers of all modules of the listing, checking one module node yields exactly that
  module's case identifiers, and checking one case node yields exactly that one identifier.
\<close>

theorem selection_extraction:
  "(\<forall>ns. set ns \<subseteq> set (tree_nodes listing) \<longrightarrow>
      checked_case_ids ns = map node_id (filter isLeaf ns) \<and>
      (distinct (map key ns) \<longrightarrow> distinct (checked_case_ids ns))) \<and>
   checked_case_ids (getCheckedNodes True (check_node [0] (map mount (build_tree listing)))) =
     concat (map case_ids listing) \<and>
   (\<forall>i<length (shown_modules listing).
      checked_case_ids
        (getCheckedNodes True (check_node [0, i] (map mount (build_tree listing)))) =
        case_ids (shown_modules listing ! i)) \<and>
   (\<forall>i<length (shown_modules listing). \<forall>j<length (cases_of (shown_modules listing ! i)).
      checked_case_ids
        (getCheckedNodes True (check_node [0, i, j] (map mount (build_tree listing)))) =
        [Some (tc_id (cases_of (shown_modules listing ! i) ! j))])"
proof (intro conjI allI impI)
  fix ns assume "set ns \<subseteq> set (tree_nodes listing)"
  then show "checked_case_ids ns = map node_id (filter isLeaf ns)"
    by (rule checked_case_ids_tagged)
next
  fix ns assume "set ns \<subseteq> set (tree_nodes listing)" "distinct (map key ns)"
  then show "distinct (checked_case_ids ns)" by (rule checked_case_ids_distinct)
next
  show "checked_case_ids (getCheckedNodes True (check_node [0] (map mount (build_tree listing)))) =
     concat (map case_ids listing)"
    by (rule check_root_ids)
next
  fix i assume "i < length (shown_modules listing)"
  then show "checked_case_ids
        (getCheckedNodes True (check_node [0, i] (map mount (build_tree listing)))) =
        case_ids (shown_modules listing ! i)"
    by (simp only: check_module_nodes checked_case_ids_case_nodes case_ids_def)
next
  fix i j assume "i < length (shown_modules listing)"
    "j < length (cases_of (shown_modules listing ! i))"
  then show "checked_case_ids
        (getCheckedNodes True (check_node [0, i, j] (map mount (build_tree listing)))) =
        [Some (tc_id (cases_of (shown_modules listing ! i) ! j))]"
    using checked_case_ids_case_nodes[of "[cases_of (shown_modules listing ! i) ! j]"]
    by (simp only: check_leaf_nodes) simp
qed

theorem selection_extraction_witness:
  "checked_case_ids
     (getCheckedNodes True (check_node [0] (map mount (build_tree sample_listing)))) =
     [Some 11, Some 12, Some 31] \<and>
   checked_case_ids
     (getCheckedNodes True (check_node [0, 1] (map mount (build_tree sample_listing)))) =
     [Some 31] \<and>
   checked_case_ids
     (getCheckedNodes True (check_node [0, 0, 1] (map mount (build_tree sample_listing)))) =
     [Some 12] \<and>
   checked_case_ids (build_tree sample_listing) = []"
proof -
  note T = selection_extraction[of sample_listing]
  have len: "length (shown_modules sample_listing) = 2" by (simp add: shown_sample)
  from T have "checked_case_ids
     (getCheckedNodes True (check_node [0] (map mount (build_tree sample_listing)))) =
     concat (map case_ids sample_listing)"
    by blast
  moreover have "concat (map case_ids sample_listing) = [Some 11, Some 12, Some 31]"
    by (simp add: sample_listing_def case_ids_def cases_of_def)
  ultimately have root: "checked_case_ids
     (getCheckedNodes True (check_node [0] (map mount (build_tree sample_listing)))) =
     [Some 11, Some 12, Some 31]"
    by (simp only:)
  from T have "\<forall>i<length (shown_modules sample_listing).
      checked_case_ids
        (getCheckedNodes True (check_node [0, i] (map mount (build_tree sample_listing)))) =
        case_ids (shown_modules sample_listing ! i)"
    by (elim conjE)
  moreover have "(1::nat) < length (shown_modules sample_listing)" unfolding len by simp
  ultimately have "checked_case_ids
        (getCheckedNodes True (check_node [0, 1] (map mount (build_tree sample_listing)))) =
        case_ids (shown_modules sample_listing ! 1)"
    by blast
  moreover have "case_ids (shown_modules sample_listing ! 1) = [Some 31]"
    by (simp add: shown_sample case_ids_def cases_of_def)
  ultimately have module: "checked_case_ids
     (getCheckedNodes True (check_node [0, 1] (map mount (build_tree sample_listing)))) =
     [Some 31]"
    by (simp only:)
  from T have "\<forall>i<length (shown_modules sample_listing).
      \<forall>j<length (cases_of (shown_modules sample_listing ! i)).
      checked_case_ids
        (getCheckedNodes True (check_node [0, i, j] (map mount (build_tree sample_listing)))) =
        [Some (tc_id (cases_of (shown_modules sample_listing ! i) ! j))]"
    by blast
  moreover have "(0::nat) < length (shown_modules sample_listing)" unfolding len by simp
  moreover have "(1::nat) < length (cases_of (shown_modules sample_listing ! 0))"
    by (simp add: shown_sample cases_of_def)
  ultimately have "checked_case_ids
        (getCheckedNodes True (check_node [0, 0, 1] (map mount (build_tree sample_listing)))) =
        [Some (tc_id (cases_of (shown_modules sample_listing ! 0) ! 1))]"
    by blast
  moreover have "tc_id (cases_of (shown_modules sample_listing ! 0) ! 1) = 12"
    by (simp add: shown_sample cases_of_def)
  ultimately have leaf: "checked_case_ids
     (getCheckedNodes True (check_node [0, 0, 1] (map mount (build_tree sample_listing)))) =
     [Some 12]"
    by (simp only:)
  from T have "\<forall>ns. set ns \<subseteq> set (tree_nodes sample_listing) \<longrightarrow>
      checked_case_ids ns = map node_id (filter isLeaf ns)"
    by blast
  moreover have "set (build_tree sample_listing) \<subseteq> set (tree_nodes sample_listing)"
    by (simp add: tree_nodes_def)
  ultimately have "checked_case_ids (build_tree sample_listing) =
      map node_id (filter isLeaf (build_tree sample_listing))"
    by blast
  then have "checked_case_ids (build_tree sample_listing) = []"
    by (simp only: build_tree_modules) simp
  with root module leaf show ?thesis by (simp only:)
qed

section \<open>Validation before creating an archive\<close>

lemma handleCreate_rejected:
  "name (createForm st) = [] \<or> selected_case_ids st = [] \<Longrightarrow>
     filter is_network_call (snd (handleCreate createArchive getArchives projectId st)) = [] \<and>
     fst (handleCreate createArchive getArchives projectId st) = st"
  by (auto simp: handleCreate_def selected_case_ids_def Let_def split: option.splits)

lemma loadArchives_no_create:
  "loadArchives getArchives projectId st = (st', effs) \<Longrightarrow> filter is_create_call effs = []"
  by (auto simp: loadArchives_def split: option.splits)

lemma handleCreate_sent:
  assumes "name (createForm st) \<noteq> []" and "selected_case_ids st \<noteq> []"
  shows "filter is_create_call (snd (handleCreate createArchive getArchives projectId st)) =
     [ApiCreateArchive projectId
        \<lparr> req_name = name (createForm st), req_description = description (createForm st),
          test_case_ids = selected_case_ids st \<rparr>]"
proof -
  from assms(2) obtain roots where roots: "treeRef st = Some roots"
    by (auto simp: selected_case_ids_def split: option.splits)
  with assms(2) have ne: "checked_case_ids (getCheckedNodes True roots) \<noteq> []"
    by (simp add: selected_case_ids_def)
  show ?thesis
    using assms(1) roots ne
    by (auto simp: handleCreate_def selected_case_ids_def Let_def
        split: sum.splits prod.splits dest: loadArchives_no_create)
qed

text \<open>
  C4. \<open>handleCreate\<close> with an empty name, or with no case identifier selected in the tree,
  issues no network call at all and leaves the component state as it was. With a non-empty
  name and at least one selected case it issues exactly one create request, carrying that
  name, that description and the selected case identifiers.
\<close>

theorem handleCreate_validation:
  "(name (createForm st) = [] \<or> selected_case_ids st = [] \<longrightarrow>
      filter is_network_call (snd (handleCreate createArchive getArchives projectId st)) = [] \<and>
      fst (handleCreate createArchive getArchives projectId st) = st) \<and>
   (name (createForm st) \<noteq> [] \<and> selected_case_ids st \<noteq> [] \<longrightarrow>
      filter is_create_call (snd (handleCreate createArchive getArchives projectId st)) =
        [ApiCreateArchive projectId
           \<lparr> req_name = name (createForm st), req_description = description (createForm st),
             test_case_ids = selected_case_ids st \<rparr>])"
  using handleCreate_rejected[of st createArchive getArchives projectId]
    handleCreate_sent[of st createArchive getArchives projectId]
  by blast

theorem handleCreate_validation_witness:
  "filter is_create_call (snd (handleCreate (\<lambda>p r. Inl None) (\<lambda>p. None) 5 filled_in_view)) =
     [ApiCreateArchive 5
        \<lparr> req_name = ''v1'', req_description = ''regression'',
          test_case_ids = [Some 11, Some 12] \<rparr>] \<and>
   filter is_network_call
     (snd (handleCreate (\<lambda>p r. Inl None) (\<lambda>p. None) 5
        (filled_in_view\<lparr> createForm := \<lparr> name = [], description = ''regression'' \<rparr> \<rparr>))) = [] \<and>
   filter is_network_call
     (snd (handleCreate (\<lambda>p r. Inl None) (\<lambda>p. None) 5
        (filled_in_view\<lparr> treeRef := Some (map mount (build_tree sample_listing)) \<rparr>))) = []"
proof -
  have "getCheckedNodes True (check_node [0, 0] (map mount (build_tree sample_listing))) =
      map case_node (cases_of (shown_modules sample_listing ! 0))"
    by (rule check_module_nodes) (simp add: shown_sample)
  then have "checked_case_ids
      (getCheckedNodes True (check_node [0, 0] (map mount (build_tree sample_listing)))) =
      map (\<lambda>tc. Some (tc_id tc)) (cases_of (shown_modules sample_listing ! 0))"
    by (simp only: checked_case_ids_case_nodes)
  moreover have "map (\<lambda>tc. Some (tc_id tc)) (cases_of (shown_modules sample_listing ! 0)) =
      [Some 11, Some 12]"
    by (simp add: shown_sample cases_of_def)
  moreover have "selected_case_ids filled_in_view = checked_case_ids
      (getCheckedNodes True (check_node [0, 0] (map mount (build_tree sample_listing))))"
    by (simp add: selected_case_ids_def filled_in_view_def)
  ultimately have sel: "selected_case_ids filled_in_view = [Some 11, Some 12]"
    by (simp only:)
  have form: "name (createForm filled_in_view) = ''v1''"
    "description (createForm filled_in_view) = ''regression''"
    by (simp_all add: filled_in_view_def)
  have none: "selected_case_ids
      (filled_in_view\<lparr> treeRef := Some (map mount (build_tree sample_listing)) \<rparr>) = []"
    by (simp add: selected_case_ids_def getCheckedNodes_def mount_build_tree comp_def
        checked_below_module_unchecked shown_sample checked_case_ids_def)
  from handleCreate_validation[of filled_in_view "\<lambda>p r. Inl None" "\<lambda>p. None" 5] sel form
  have "filter is_create_call (snd (handleCreate (\<lambda>p r. Inl None) (\<lambda>p. None) 5 filled_in_view)) =
     [ApiCreateArchive 5
        \<lparr> req_name = ''v1'', req_description = ''regression'',
          test_case_ids = [Some 11, Some 12] \<rparr>]"
    by simp
  moreover from handleCreate_validation[of
      "filled_in_view\<lparr> createForm := \<lparr> name = [], description = ''regression'' \<rparr> \<rparr>"
      "\<lambda>p r. Inl None" "\<lambda>p. None" 5]
  have "filter is_network_call
     (snd (handleCreate (\<lambda>p r. Inl None) (\<lambda>p. None) 5
        (filled_in_view\<lparr> createForm := \<lparr> name = [], description = ''regression'' \<rparr> \<rparr>))) = []"
    by simp
  moreover from handleCreate_validation[of
      "filled_in_view\<lparr> treeRef := Some (map mount (build_tree sample_listing)) \<rparr>"
      "\<lambda>p r. Inl None" "\<lambda>p. None" 5] none
  have "filter is_network_call
     (snd (handleCreate (\<lambda>p r. Inl None) (\<lambda>p. None) 5
        (filled_in_view\<lparr> treeRef := Some (map mount (build_tree sample_listing)) \<rparr>))) = []"
    by simp
  ultimately show ?thesis by simp
qed

section \<open>Statistics\<close>

lemma round_half_even_error: "\<bar>of_int (round_half_even x) - x\<bar> \<le> 1 / 2"
proof -
  have "of_int \<lfloor>x\<rfloor> \<le> x" "x < of_int \<lfloor>x\<rfloor> + 1" by linarith+
  then show ?thesis
    by (auto simp: round_half_even_def Let_def abs_le_iff)
qed

lemma bitlen_rat_bounds:
  fixes a :: int
  assumes "0 < a"
  shows "power_int 2 (bitlen a - 1) \<le> (of_int a :: rat)" "(of_int a :: rat) < power_int 2 (bitlen a)"
proof -
  from bitlen_bounds[OF assms] have lo: "2 ^ nat (bitlen a - 1) \<le> a" and hi: "a < 2 ^ nat (bitlen a)"
    by simp_all
  have pos: "0 < bitlen a" using assms lo hi
    by (metis bitlen_nonneg bitlen_eq_zero_iff less_le not_less)
  from lo have "(of_int (2 ^ nat (bitlen a - 1)) :: rat) \<le> of_int a" by (simp only: of_int_le_iff)
  then show "power_int 2 (bitlen a - 1) \<le> (of_int a :: rat)"
    using pos by (simp add: power_int_def)
  from hi have "(of_int a :: rat) < of_int (2 ^ nat (bitlen a))" by (simp only: of_int_less_iff)
  then show "(of_int a :: rat) < power_int 2 (bitlen a)"
    using pos by (simp add: power_int_def)
qed

lemma binade_bounds:
  assumes "0 < x"
  shows "power_int 2 (binade x) \<le> x" "x < power_int 2 (binade x + 1)"
proof -
  obtain a b where ab: "quotient_of x = (a, b)" by (cases "quotient_of x")
  then have b: "0 < b" using quotient_of_denom_pos by blast
  from ab have x: "x = of_int a / of_int b" by (rule quotient_of_div)
  with assms b have a: "0 < a" by (simp add: zero_less_divide_iff)
  define e where "e = bitlen a - bitlen b"
  have bin: "binade x = (if power_int 2 e \<le> x then e else e - 1)"
    by (simp add: binade_def ab e_def Let_def)
  note A = bitlen_rat_bounds[OF a] and B = bitlen_rat_bounds[OF b]
  have bpos: "(0::rat) < of_int b" using b by simp
  have p2: "\<And>k. (0::rat) < power_int 2 k" by simp
  have lower: "power_int 2 (e - 1) \<le> x"
  proof -
    have "e - 1 = (bitlen a - 1) - bitlen b" by (simp add: e_def)
    moreover have "power_int 2 ((bitlen a - 1) - bitlen b) =
        (power_int 2 (bitlen a - 1) :: rat) / power_int 2 (bitlen b)"
      by (rule power_int_diff) simp
    ultimately have "power_int 2 (e - 1) =
        (power_int 2 (bitlen a - 1) :: rat) / power_int 2 (bitlen b)"
      by (simp only:)
    also have "\<dots> \<le> of_int a / power_int 2 (bitlen b)"
      using A(1) by (simp add: divide_right_mono)
    also have "\<dots> \<le> of_int a / of_int b"
      using B(2) a bpos by (intro divide_left_mono) (simp_all add: less_imp_le)
    finally show ?thesis by (simp add: x)
  qed
  have upper: "x < power_int 2 (e + 1)"
  proof -
    have "x = of_int a / of_int b" by (rule x)
    also have "\<dots> < power_int 2 (bitlen a) / of_int b"
      using A(2) bpos by (simp add: divide_strict_right_mono)
    also have "\<dots> \<le> power_int 2 (bitlen a) / power_int 2 (bitlen b - 1)"
      using B(1) bpos by (intro divide_left_mono) (simp_all add: zero_less_mult_iff)
    also have "\<dots> = power_int 2 (bitlen a - (bitlen b - 1))"
      by (rule power_int_diff[symmetric]) simp
    also have "bitlen a - (bitlen b - 1) = e + 1" by (simp add: e_def)
    finally show ?thesis .
  qed
  show "power_int 2 (binade x) \<le> x" using lower by (simp add: bin)
  show "x < power_int 2 (binade x + 1)" using upper by (auto simp: bin not_le)
qed

lemma fl_zero: "fl 0 = 0"
  by (simp add: fl_def)

lemma fl_error:
  assumes "power_int 2 (- 1022) \<le> x"
  shows "\<bar>fl x - x\<bar> \<le> x / 2 ^ 53"
proof -
  have xpos: "0 < x"
    using assms by (rule less_le_trans[rotated]) simp
  define e where "e = binade x"
  define u :: rat where "u = power_int 2 (e - 52)"
  have upos: "0 < u" by (simp add: u_def)
  have "x < power_int 2 (e + 1)" unfolding e_def using xpos by (rule binade_bounds)
  with assms have "(power_int 2 (- 1022) :: rat) < power_int 2 (e + 1)" by simp
  moreover have "(power_int 2 (e + 1) :: rat) \<le> power_int 2 (- 1022)" if "e + 1 \<le> - 1022"
    using that by (intro power_int_increasing) simp_all
  ultimately have "- 1022 < e + 1" by (meson not_le)
  then have emax: "max e (- 1022) = e" by simp
  have flx: "fl x = of_int (round_half_even (x / u)) * u"
    using xpos emax by (simp add: fl_def Let_def e_def[symmetric] u_def)
  have "fl x - x = (of_int (round_half_even (x / u)) - x / u) * u"
    using upos by (simp add: flx algebra_simps)
  then have "\<bar>fl x - x\<bar> = \<bar>of_int (round_half_even (x / u)) - x / u\<bar> * u"
    using upos by (simp add: abs_mult)
  also have "\<dots> \<le> 1 / 2 * u"
    using round_half_even_error[of "x / u"] upos by (intro mult_right_mono) simp_all
  also have "1 / 2 * u = power_int 2 e / 2 ^ 53"
  proof -
    have "u = power_int 2 e / power_int 2 52" unfolding u_def by (rule power_int_diff) simp
    then show ?thesis by simp
  qed
  also have "\<dots> \<le> x / 2 ^ 53"
    using binade_bounds(1)[OF xpos] by (simp add: e_def divide_right_mono)
  finally show ?thesis .
qed

lemma String_nat_length: "0 < length (String_nat n)"
  by (subst String_nat.simps) simp

lemma toFixed_one_decimal:
  assumes "0 \<le> x"
  shows "toFixed x 1 = one_decimal (nat \<lfloor>x * 10 + 1 / 2\<rfloor>)"
proof -
  define n where "n = nat \<lfloor>x * 10 + 1 / 2\<rfloor>"
  have digit0: "String_nat 0 = ''0''" by code_simp
  have tf: "toFixed x 1 =
      (let m = String_nat n;
           padded = (if length m \<le> 1 then replicate (2 - length m) CHR ''0'' @ m else m)
       in take (length padded - 1) padded @ ''.'' @ drop (length padded - 1) padded)"
    using assms by (simp add: toFixed_def Let_def n_def)
  have "toFixed x 1 = one_decimal n"
  proof (cases "n < 10")
    case True
    then have m: "String_nat n = [digit_char n]" by (simp add: String_nat.simps[of n])
    from True have "one_decimal n = ''0'' @ ''.'' @ [digit_char n]"
      by (simp add: one_decimal_def digit0 m)
    moreover have "toFixed x 1 = ''0'' @ ''.'' @ [digit_char n]"
      by (simp only: tf) (simp add: m)
    ultimately show ?thesis by simp
  next
    case False
    then have m: "String_nat n = String_nat (n div 10) @ [digit_char (n mod 10)]"
      by (simp add: String_nat.simps[of n])
    have d: "String_nat (n mod 10) = [digit_char (n mod 10)]"
      by (simp add: String_nat.simps[of "n mod 10"])
    have len: "\<not> length (String_nat n) \<le> 1"
      using String_nat_length[of "n div 10"] by (simp add: m)
    have "toFixed x 1 = String_nat (n div 10) @ ''.'' @ [digit_char (n mod 10)]"
      using len by (simp only: tf) (simp add: Let_def, simp add: m)
    also have "\<dots> = one_decimal n" by (simp only: one_decimal_def d)
    finally show ?thesis .
  qed
  then show ?thesis by (simp only: n_def)
qed

lemma nearest_tenth_stable:
  fixes w d :: rat and p t :: nat
  assumes "0 < t" and "\<bar>w - 1000 * of_nat p / of_nat t\<bar> \<le> d" and "d < 1 / (2 * of_nat t)"
  shows "\<bar>(of_int \<lfloor>w + 1 / 2\<rfloor> :: rat) - 1000 * of_nat p / of_nat t\<bar> \<le> 1 / 2"
proof -
  define n where "n = \<lfloor>w + 1 / 2\<rfloor>"
  define v :: rat where "v = 1000 * of_nat p / of_nat t"
  have tpos: "(0::rat) < of_nat t" using assms(1) by simp
  have n1: "of_int n \<le> w + 1 / 2" and n2: "w + 1 / 2 < of_int n + 1"
    unfolding n_def by linarith+
  have wv: "w - v \<le> d" "v - w \<le> d" using assms(2) by (simp_all add: v_def abs_le_iff)
  have vt: "v * of_nat t = 1000 * of_nat p" using tpos by (simp add: v_def)
  have up: "of_int n - v \<le> 1 / 2"
  proof (rule ccontr)
    assume "\<not> of_int n - v \<le> 1 / 2"
    then have "v < of_int n - 1 / 2" by simp
    then have "v * of_nat t < (of_int n - 1 / 2) * of_nat t"
      using tpos by (simp add: mult_strict_right_mono)
    then have "1000 * of_nat p < (of_int n - 1 / 2) * (of_nat t :: rat)"
      by (simp only: vt)
    then have "(of_int (2000 * int p) :: rat) < of_int ((2 * n - 1) * int t)"
      by (simp add: algebra_simps)
    then have "2000 * int p < (2 * n - 1) * int t" by (simp only: of_int_less_iff)
    then have "2000 * int p + 1 \<le> (2 * n - 1) * int t" by simp
    then have "(of_int (2000 * int p + 1) :: rat) \<le> of_int ((2 * n - 1) * int t)"
      by (simp only: of_int_le_iff)
    then have "2 * (1000 * of_nat p) + 1 \<le> (2 * of_int n - 1) * (of_nat t :: rat)"
      by simp
    then have "2 * (v * of_nat t) + 1 \<le> (2 * of_int n - 1) * of_nat t"
      by (simp only: vt)
    then have "1 \<le> (of_int n - 1 / 2 - v) * (2 * of_nat t)"
      by (simp add: algebra_simps)
    then have "1 / (2 * of_nat t) \<le> of_int n - 1 / 2 - v"
      using tpos by (simp add: pos_divide_le_eq)
    with n1 wv assms(3) show False by linarith
  qed
  have down: "v - of_int n \<le> 1 / 2"
  proof (rule ccontr)
    assume "\<not> v - of_int n \<le> 1 / 2"
    then have "of_int n + 1 / 2 < v" by simp
    then have "(of_int n + 1 / 2) * of_nat t < v * of_nat t"
      using tpos by (simp add: mult_strict_right_mono)
    then have "(of_int n + 1 / 2) * (of_nat t :: rat) < 1000 * of_nat p"
      by (simp only: vt)
    then have "(of_int ((2 * n + 1) * int t) :: rat) < of_int (2000 * int p)"
      by (simp add: algebra_simps)
    then have "(2 * n + 1) * int t < 2000 * int p" by (simp only: of_int_less_iff)
    then have "(2 * n + 1) * int t + 1 \<le> 2000 * int p" by simp
    then have "(of_int ((2 * n + 1) * int t + 1) :: rat) \<le> of_int (2000 * int p)"
      by (simp only: of_int_le_iff)
    then have "(2 * of_int n + 1) * (of_nat t :: rat) + 1 \<le> 2 * (1000 * of_nat p)"
      by simp
    then have "(2 * of_int n + 1) * of_nat t + 1 \<le> 2 * (v * of_nat t)"
      by (simp only: vt)
    then have "1 \<le> (v - (of_int n + 1 / 2)) * (2 * of_nat t)"
      by (simp add: algebra_simps)
    then have "1 / (2 * of_nat t) \<le> v - (of_int n + 1 / 2)"
      using tpos by (simp add: pos_divide_le_eq)
    with n2 wv assms(3) show False by linarith
  qed
  from up down have "\<bar>of_int n - v\<bar> \<le> 1 / 2" by linarith
  then show ?thesis by (simp only: n_def v_def)
qed

lemma fl_bounds:
  assumes "power_int 2 (- 1022) \<le> x"
  shows "x * (1 - 1 / 2 ^ 53) \<le> fl x" "fl x \<le> x * (1 + 1 / 2 ^ 53)"
proof -
  define e :: rat where "e = 1 / 2 ^ 53"
  from fl_error[OF assms] have "\<bar>fl x - x\<bar> \<le> x * e" by (simp add: e_def)
  then have "x * (1 - e) \<le> fl x" "fl x \<le> x * (1 + e)"
    by (simp_all add: abs_le_iff algebra_simps)
  then show "x * (1 - 1 / 2 ^ 53) \<le> fl x" "fl x \<le> x * (1 + 1 / 2 ^ 53)"
    unfolding e_def .
qed

lemma tiny: "(power_int 2 (- 1022) :: rat) \<le> 1 / 2 ^ 33"
proof -
  have "(power_int 2 (- 1022) :: rat) \<le> power_int 2 (- 33)"
    by (intro power_int_increasing) simp_all
  also have "(power_int 2 (- 33) :: rat) = 1 / 2 ^ 33"
    by (simp add: power_int_def field_simps)
  finally show ?thesis .
qed

lemma rate_error:
  fixes p t :: nat
  assumes "0 < t" and "p \<le> t" and "t < 2 ^ 32"
  shows "\<bar>fl (fl (of_nat p / of_nat t) * 100) * 10 - 1000 * of_nat p / of_nat t\<bar>
           \<le> 1000 * (2 + 1 / 2 ^ 53) / 2 ^ 53"
    and "0 \<le> fl (fl (of_nat p / of_nat t) * 100)"
proof -
  define eps :: rat where "eps = 1 / 2 ^ 53"
  define q :: rat where "q = of_nat p / of_nat t"
  define qh where "qh = fl q"
  define y where "y = qh * 100"
  define yh where "yh = fl y"
  have eps: "0 < eps" "eps < 1 / 2" by (simp_all add: eps_def)
  have tpos: "(0::rat) < of_nat t" using assms(1) by simp
  have q01: "0 \<le> q" "q \<le> 1" using assms tpos by (simp_all add: q_def)
  have goal: "\<bar>yh * 10 - 1000 * q\<bar> \<le> 1000 * (2 + eps) * eps \<and> 0 \<le> yh"
  proof (cases "p = 0")
    case True
    then have "q = 0" by (simp add: q_def)
    then have "yh = 0" by (simp add: yh_def y_def qh_def fl_zero)
    with \<open>q = 0\<close> eps show ?thesis by simp
  next
    case False
    then have "1 \<le> (of_nat p :: rat)" by simp
    then have "1 / of_nat t \<le> q" using tpos by (simp add: q_def divide_right_mono)
    moreover have "(of_nat t :: rat) < 2 ^ 32"
      using assms(3) by (metis of_nat_less_iff of_nat_numeral of_nat_power)
    then have "1 / 2 ^ 32 < 1 / (of_nat t :: rat)" using tpos by (simp add: frac_less2)
    ultimately have qlow: "1 / 2 ^ 32 < q" by simp
    then have qn: "power_int 2 (- 1022) \<le> q" using tiny by simp
    from fl_bounds[OF qn] have qh: "q * (1 - eps) \<le> qh" "qh \<le> q * (1 + eps)"
      by (simp_all add: qh_def eps_def)
    have "q * (1 / 2) \<le> q * (1 - eps)" using q01 eps by (intro mult_left_mono) simp_all
    with qh(1) have qhlow: "q / 2 \<le> qh" by simp
    then have "1 / 2 ^ 33 \<le> y" using qlow by (simp add: y_def)
    then have yn: "power_int 2 (- 1022) \<le> y" using tiny by simp
    from fl_error[OF yn] have yh: "\<bar>yh - y\<bar> \<le> y * eps" by (simp add: yh_def eps_def)
    have ypos: "0 \<le> y" using qhlow q01 by (simp add: y_def)
    have yup: "y \<le> 100 * q * (1 + eps)" using qh(2) by (simp add: y_def)
    have "y * eps \<le> 100 * q * (1 + eps) * eps"
      using yup eps by (intro mult_right_mono) simp_all
    with yh have e1: "\<bar>yh - y\<bar> \<le> 100 * q * (1 + eps) * eps" by simp
    have e2: "\<bar>y - 100 * q\<bar> \<le> 100 * q * eps"
      using qh by (simp add: y_def abs_le_iff algebra_simps)
    have "yh * 10 - 1000 * q = 10 * ((yh - y) + (y - 100 * q))" by simp
    then have "\<bar>yh * 10 - 1000 * q\<bar> = \<bar>10 * ((yh - y) + (y - 100 * q))\<bar>" by (simp only:)
    also have "\<dots> = 10 * \<bar>(yh - y) + (y - 100 * q)\<bar>" by (simp only: abs_mult abs_numeral)
    finally have "\<bar>yh * 10 - 1000 * q\<bar> = 10 * \<bar>(yh - y) + (y - 100 * q)\<bar>" .
    also have "\<dots> \<le> 10 * (\<bar>yh - y\<bar> + \<bar>y - 100 * q\<bar>)"
      by (intro mult_left_mono abs_triangle_ineq) simp
    also have "\<dots> \<le> 10 * (100 * q * (1 + eps) * eps + 100 * q * eps)"
      using e1 e2 by simp
    also have "\<dots> = q * (1000 * (2 + eps) * eps)" by (simp add: algebra_simps)
    also have "\<dots> \<le> 1 * (1000 * (2 + eps) * eps)"
      using q01 eps by (intro mult_right_mono) simp_all
    finally have main: "\<bar>yh * 10 - 1000 * q\<bar> \<le> 1000 * (2 + eps) * eps" by simp
    have "0 \<le> y * (1 - eps)" using ypos eps by simp
    moreover from yh have "y - y * eps \<le> yh" by (simp add: abs_le_iff)
    ultimately have "0 \<le> yh" by (simp add: algebra_simps)
    with main show ?thesis by simp
  qed
  from goal show "\<bar>fl (fl (of_nat p / of_nat t) * 100) * 10 - 1000 * of_nat p / of_nat t\<bar>
           \<le> 1000 * (2 + 1 / 2 ^ 53) / 2 ^ 53"
    by (simp add: yh_def y_def qh_def q_def eps_def)
  from goal show "0 \<le> fl (fl (of_nat p / of_nat t) * 100)"
    by (simp add: yh_def y_def qh_def q_def)
qed

lemma nat_near:
  fixes n k :: nat and r :: rat
  assumes "\<bar>of_nat n - r\<bar> \<le> 1 / 2" and "of_nat k - 1 / 2 < r" and "r < of_nat k + 1 / 2"
  shows "n = k"
proof -
  from assms have "(of_nat n :: rat) < of_nat k + 1" "(of_nat k :: rat) < of_nat n + 1"
    by linarith+
  then have "(of_nat n :: rat) < of_nat (k + 1)" "(of_nat k :: rat) < of_nat (n + 1)"
    by simp_all
  then have "n < k + 1" "k < n + 1" by (simp_all only: of_nat_less_iff)
  then show ?thesis by simp
qed

lemma bucket_partition:
  "length (filter (\<lambda>c. f c = Some ''passed'') cs) +
   length (filter (\<lambda>c. f c = Some ''failed'') cs) +
   length (filter (\<lambda>c. f c = Some ''blocked'') cs) +
   length (filter (\<lambda>c. f c = Some ''skipped'') cs) +
   length (filter (\<lambda>c. f c \<notin> {Some ''passed'', Some ''failed'', Some ''blocked'', Some ''skipped''}) cs) =
   length cs"
  by (induction cs) auto

lemma passRate_nearest:
  assumes "testCases st \<noteq> []" and "length (testCases st) < 2 ^ 32"
  shows "\<exists>n. passRate (stats st) = one_decimal n \<and>
             \<bar>of_nat n - 1000 * of_nat (passed (stats st)) / of_nat (total (stats st))\<bar>
               \<le> (1 / 2 :: rat)"
proof -
  define t where "t = length (testCases st)"
  define p where "p = length (filter (\<lambda>c. execution_status c = Some ''passed'') (testCases st))"
  define x where "x = fl (fl (of_nat p / of_nat t) * 100)"
  have t: "0 < t" "p \<le> t" "t < 2 ^ 32" using assms by (simp_all add: t_def p_def)
  note err = rate_error[OF t]
  have x0: "0 \<le> x" using err(2) by (simp add: x_def)
  have rate: "passRate (stats st) = toFixed x 1"
    using t(1) by (simp add: stats_def t_def p_def x_def)
  define n where "n = nat \<lfloor>x * 10 + 1 / 2\<rfloor>"
  have n0: "0 \<le> \<lfloor>x * 10 + 1 / 2\<rfloor>" using x0 by simp
  have small: "1000 * (2 + 1 / 2 ^ 53) / 2 ^ 53 < 1 / (2 * (of_nat t :: rat))"
  proof -
    have "(of_nat t :: rat) < 2 ^ 32"
      using t(3) by (metis of_nat_less_iff of_nat_numeral of_nat_power)
    then have "2 * (of_nat t :: rat) < 2 ^ 33" by simp
    then have "1 / 2 ^ 33 < 1 / (2 * (of_nat t :: rat))"
      using t(1) by (intro divide_strict_left_mono) simp_all
    moreover have "1000 * (2 + 1 / 2 ^ 53) / 2 ^ 53 < (1 / 2 ^ 33 :: rat)" by simp
    ultimately show ?thesis by (rule less_trans[rotated])
  qed
  have "\<bar>(of_int \<lfloor>x * 10 + 1 / 2\<rfloor> :: rat) - 1000 * of_nat p / of_nat t\<bar> \<le> 1 / 2"
    using t(1) err(1)[folded x_def] small by (rule nearest_tenth_stable)
  moreover have "(of_int \<lfloor>x * 10 + 1 / 2\<rfloor> :: rat) = of_nat n"
    using n0 by (simp add: n_def)
  ultimately have "\<bar>(of_nat n :: rat) - 1000 * of_nat p / of_nat t\<bar> \<le> 1 / 2" by simp
  moreover have "passRate (stats st) = one_decimal n"
    using x0 by (simp only: rate n_def toFixed_one_decimal)
  moreover have "passed (stats st) = p" "total (stats st) = t"
    by (simp_all add: stats_def p_def t_def)
  ultimately show ?thesis by auto
qed

lemma one_decimal_600: "one_decimal 600 = ''60.0''"
  by code_simp

text \<open>
  C2. For every list of archived cases: \<open>total\<close> is the length of the list; each of \<open>passed\<close>,
  \<open>failed\<close>, \<open>blocked\<close>, \<open>skipped\<close> is the number of cases whose \<open>execution_status\<close> is
  exactly that word; the four buckets and the cases with any other or no status add up to
  \<open>total\<close>. \<open>passRate\<close> is \<open>0.0\<close> for the empty list; for a non-empty list (an array has fewer
  than \<open>2^32\<close> elements) it is a number of tenths written with one decimal place, and that
  number is within half a tenth of \<open>passed / total * 100\<close>, so it is that value rounded to one
  decimal place. In particular 6 passed out of 10 gives \<open>60.0\<close>.
\<close>

theorem stats_summary:
  "total (stats st) = length (testCases st) \<and>
   passed (stats st) =
     card {i. i < length (testCases st) \<and> execution_status (testCases st ! i) = Some ''passed''} \<and>
   failed (stats st) =
     card {i. i < length (testCases st) \<and> execution_status (testCases st ! i) = Some ''failed''} \<and>
   blocked (stats st) =
     card {i. i < length (testCases st) \<and> execution_status (testCases st ! i) = Some ''blocked''} \<and>
   skipped (stats st) =
     card {i. i < length (testCases st) \<and> execution_status (testCases st ! i) = Some ''skipped''} \<and>
   passed (stats st) + failed (stats st) + blocked (stats st) + skipped (stats st) +
     length (filter (\<lambda>c. execution_status c \<notin>
       {Some ''passed'', Some ''failed'', Some ''blocked'', Some ''skipped''}) (testCases st)) =
     total (stats st) \<and>
   (testCases st = [] \<longrightarrow> passRate (stats st) = ''0.0'') \<and>
   (testCases st \<noteq> [] \<and> length (testCases st) < 2 ^ 32 \<longrightarrow>
      (\<exists>n. passRate (stats st) = one_decimal n \<and>
           \<bar>of_nat n - 1000 * of_nat (passed (stats st)) / of_nat (total (stats st))\<bar>
             \<le> (1 / 2 :: rat))) \<and>
   (total (stats st) = 10 \<and> passed (stats st) = 6 \<longrightarrow> passRate (stats st) = ''60.0'')"
proof (intro conjI impI)
  show "total (stats st) = length (testCases st)" by (simp add: stats_def)
  show "passed (stats st) =
     card {i. i < length (testCases st) \<and> execution_status (testCases st ! i) = Some ''passed''}"
    by (simp add: stats_def length_filter_conv_card)
  show "failed (stats st) =
     card {i. i < length (testCases st) \<and> execution_status (testCases st ! i) = Some ''failed''}"
    by (simp add: stats_def length_filter_conv_card)
  show "blocked (stats st) =
     card {i. i < length (testCases st) \<and> execution_status (testCases st ! i) = Some ''blocked''}"
    by (simp add: stats_def length_filter_conv_card)
  show "skipped (stats st) =
     card {i. i < length (testCases st) \<and> execution_status (testCases st ! i) = Some ''skipped''}"
    by (simp add: stats_def length_filter_conv_card)
  show "passed (stats st) + failed (stats st) + blocked (stats st) + skipped (stats st) +
     length (filter (\<lambda>c. execution_status c \<notin>
       {Some ''passed'', Some ''failed'', Some ''blocked'', Some ''skipped''}) (testCases st)) =
     total (stats st)"
    using bucket_partition[of execution_status "testCases st"] by (simp add: stats_def)
  show "passRate (stats st) = ''0.0''" if "testCases st = []"
    using that by (simp add: stats_def)
  show "\<exists>n. passRate (stats st) = one_decimal n \<and>
           \<bar>of_nat n - 1000 * of_nat (passed (stats st)) / of_nat (total (stats st))\<bar>
             \<le> (1 / 2 :: rat)"
    if "testCases st \<noteq> [] \<and> length (testCases st) < 2 ^ 32"
    using that passRate_nearest by blast
  show "passRate (stats st) = ''60.0''" if h: "total (stats st) = 10 \<and> passed (stats st) = 6"
  proof -
    from h have len: "length (testCases st) = 10" by (simp add: stats_def)
    then have "testCases st \<noteq> []" "length (testCases st) < 2 ^ 32" by auto
    from passRate_nearest[OF this] obtain n where
      n: "passRate (stats st) = one_decimal n"
         "\<bar>of_nat n - 1000 * of_nat (passed (stats st)) / of_nat (total (stats st))\<bar> \<le> (1 / 2 :: rat)"
      by blast
    from n(2) h have "\<bar>of_nat n - (600 :: rat)\<bar> \<le> 1 / 2" by simp
    then have "n = 600" by (rule nat_near) simp_all
    with n(1) show ?thesis by (simp add: one_decimal_600)
  qed
qed

theorem stats_summary_witness:
  "total (stats (initial_detail_view
      \<lparr> testCases := replicate 6 passed_case @ replicate 3 signup_case @ [login_case] \<rparr>)) = 10 \<and>
   failed (stats (initial_detail_view
      \<lparr> testCases := replicate 6 passed_case @ replicate 3 signup_case @ [login_case] \<rparr>)) = 1 \<and>
   passRate (stats (initial_detail_view
      \<lparr> testCases := replicate 6 passed_case @ replicate 3 signup_case @ [login_case] \<rparr>)) =
     ''60.0'' \<and>
   passRate (stats initial_detail_view) = ''0.0''"
proof -
  let ?st = "initial_detail_view
      \<lparr> testCases := replicate 6 passed_case @ replicate 3 signup_case @ [login_case] \<rparr>"
  have t: "total (stats ?st) = 10"
    by (simp add: stats_def)
  have p: "passed (stats ?st) = 6"
    by (simp add: stats_def passed_case_def signup_case_def login_case_def)
  have f: "failed (stats ?st) = 1"
    by (simp add: stats_def passed_case_def signup_case_def login_case_def)
  have e: "testCases initial_detail_view = []"
    by (simp add: initial_detail_view_def)
  from stats_summary[of ?st] t p have "passRate (stats ?st) = ''60.0''" by blast
  moreover from stats_summary[of initial_detail_view] e
  have "passRate (stats initial_detail_view) = ''0.0''" by blast
  ultimately show ?thesis using t f by simp
qed

text \<open>
  When \<open>passed / total * 100\<close> lies exactly midway between two tenths, the rounding of the
  two floating-point operations decides which of the two is shown: 23 passed out of 80 is
  28.75, and 28.7 is shown.
\<close>

lemma passRate_midpoint_example:
  "passRate (stats (initial_detail_view
      \<lparr> testCases := replicate 23 passed_case @ replicate 57 signup_case \<rparr>)) = ''28.7''"
proof -
  have "toFixed (fl (fl (23 / 80) * 100)) 1 = ''28.7''" by code_simp
  then show ?thesis by (simp add: stats_def passed_case_def signup_case_def)
qed

end
